theory Spec2Isabelle
  imports Main
begin

section \<open>Strings of the source language\<close>

text \<open>
  A JavaScript string is a sequence of UTF-16 code units and \<open>length\<close> counts code
  units. A code unit is modelled by its number, a string by the list of its code units.
  A literal of the source is written \<open>js ''...''\<close>.
\<close>

type_synonym jchar = nat
type_synonym jstring = "nat list"

abbreviation js :: "string \<Rightarrow> jstring" where
  "js s \<equiv> map of_char s"

text \<open>
  The class \<open>\s\<close> of a regular expression, which is also what \<open>trim\<close> strips:
  WhiteSpace (TAB, VT, FF, SP, NBSP, ZWNBSP and the category Zs) and LineTerminator
  (LF, CR, LS, PS).
\<close>

definition is_space :: "jchar \<Rightarrow> bool" where
  "is_space c \<longleftrightarrow>
     c = 9 \<or> c = 10 \<or> c = 11 \<or> c = 12 \<or> c = 13 \<or> c = 32 \<or> c = 160 \<or> c = 5760 \<or>
     (8192 \<le> c \<and> c \<le> 8202) \<or> c = 8232 \<or> c = 8233 \<or> c = 8239 \<or> c = 8287 \<or>
     c = 12288 \<or> c = 65279"

definition is_upper :: "jchar \<Rightarrow> bool" where
  \<comment> \<open>\<open>[A-Z]\<close>\<close>
  "is_upper c \<longleftrightarrow> 65 \<le> c \<and> c \<le> 90"

definition is_lower :: "jchar \<Rightarrow> bool" where
  \<comment> \<open>\<open>[a-z]\<close>\<close>
  "is_lower c \<longleftrightarrow> 97 \<le> c \<and> c \<le> 122"

definition is_digit :: "jchar \<Rightarrow> bool" where
  \<comment> \<open>\<open>[0-9]\<close>\<close>
  "is_digit c \<longleftrightarrow> 48 \<le> c \<and> c \<le> 57"

definition is_hex :: "jchar \<Rightarrow> bool" where
  \<comment> \<open>\<open>[0-9A-F]\<close>: upper-case hexadecimal digits only\<close>
  "is_hex c \<longleftrightarrow> is_digit c \<or> (65 \<le> c \<and> c \<le> 70)"

definition trimStart :: "jstring \<Rightarrow> jstring" where
  "trimStart s = dropWhile is_space s"

definition trimEnd :: "jstring \<Rightarrow> jstring" where
  "trimEnd s = rev (dropWhile is_space (rev s))"

definition trim :: "jstring \<Rightarrow> jstring" where
  "trim s = trimEnd (trimStart s)"

fun startsWith :: "jstring \<Rightarrow> jstring \<Rightarrow> bool" where
  "startsWith s [] = True"
| "startsWith [] (p # ps) = False"
| "startsWith (c # cs) (p # ps) = (c = p \<and> startsWith cs ps)"

definition endsWith :: "jstring \<Rightarrow> jstring \<Rightarrow> bool" where
  "endsWith s p = startsWith (rev s) (rev p)"

fun includesStr :: "jstring \<Rightarrow> jstring \<Rightarrow> bool" where
  "includesStr [] p = (p = [])"
| "includesStr (c # cs) p = (startsWith (c # cs) p \<or> includesStr cs p)"

fun join :: "jstring \<Rightarrow> jstring list \<Rightarrow> jstring" where
  \<comment> \<open>\<open>parts.join(sep)\<close>\<close>
  "join sep [] = []"
| "join sep [p] = p"
| "join sep (p # q # ps) = p @ sep @ join sep (q # ps)"

section \<open>The parsed XML tree\<close>

text \<open>
  What the XML parser hands over: a string, an array of nodes, or an object from tag
  names to nodes, its entries in the order \<open>Object.entries\<close> and \<open>Object.values\<close>
  enumerate them (insertion order: an XML name is never an integer-like key). \<open>Null\<close>
  is what the parser returns for a part with no markup at all. The keys of an object
  are distinct; a read \<open>element[k]\<close> finds the entry of that key. A key that an object
  does not have reads as \<open>undefined\<close>, here \<open>None\<close>; a property read on a string or
  an array is only ever made with names of tags and attributes, which they do not have.
\<close>

datatype node = Null | Str jstring | Arr "node list" | Obj "(jstring \<times> node) list"

fun truthy :: "node \<Rightarrow> bool" where
  "truthy Null = False"
| "truthy (Str s) = (s \<noteq> [])"
| "truthy (Arr xs) = True"
| "truthy (Obj kvs) = True"

definition child :: "(jstring \<times> node) list \<Rightarrow> jstring \<Rightarrow> node option" where
  \<comment> \<open>\<open>element[k]\<close> when it is truthy\<close>
  "child kvs k = (case map_of kvs k of Some v \<Rightarrow> (if truthy v then Some v else None) | None \<Rightarrow> None)"

fun getProp :: "node \<Rightarrow> jstring \<Rightarrow> node option" where
  \<comment> \<open>\<open>value[k]\<close> when it is truthy, for a value that is itself truthy\<close>
  "getProp (Obj kvs) k = child kvs k"
| "getProp _ k = None"

section \<open>Text extraction: the primary walk\<close>

definition included :: "jstring \<Rightarrow> bool" where
  \<comment> \<open>the filter of the generic recursion over \<open>Object.entries(element)\<close>\<close>
  "included key \<longleftrightarrow>
     startsWith key (js ''w:'') \<and>
     \<not> includesStr key (js ''Pr'') \<and>
     \<not> includesStr key (js ''Style'') \<and>
     \<not> includesStr key (js ''Properties'') \<and>
     \<not> includesStr key (js ''Fonts'') \<and>
     \<not> includesStr key (js ''Settings'') \<and>
     key \<noteq> js ''w:t''"

definition literalText :: "node \<Rightarrow> node" where
  \<comment> \<open>the value \<open>text\<close> computed from a truthy \<open>element['w:t']\<close>\<close>
  "literalText wt =
     (case wt of
        Str s \<Rightarrow> Str s
      | _ \<Rightarrow>
         (case getProp wt (js ''_'') of
            Some u \<Rightarrow> u
          | None \<Rightarrow>
             (case getProp wt (js ''$'') of
                Some a \<Rightarrow>
                  (if getProp a (js ''xml:space'') = Some (Str (js ''preserve''))
                   then (case getProp wt (js ''_'') of Some u \<Rightarrow> u | None \<Rightarrow> Str [])
                   else Str [])
              | None \<Rightarrow> Str [])))"

definition pushLiteral :: "node \<Rightarrow> jstring list \<Rightarrow> jstring list" where
  \<comment> \<open>"Only add meaningful text": the guard on \<open>text\<close> and the push\<close>
  "pushLiteral text parts =
     (case text of
        Str s \<Rightarrow>
          (if s \<noteq> [] \<and> trim s \<noteq> [] \<and> \<not> includesStr s (js ''http://schemas'')
           then parts @ [s] else parts)
      | _ \<Rightarrow> parts)"

definition paragraphBreak :: "jstring list \<Rightarrow> jstring list" where
  "paragraphBreak parts =
     (if parts \<noteq> [] \<and> \<not> endsWith (last parts) [10] then parts @ [[10, 10]] else parts)"

lemma child_mem: "child kvs k = Some v \<Longrightarrow> (k, v) \<in> set kvs"
  by (auto simp: child_def dest: map_of_SomeD split: option.splits if_splits)

lemma child_size [termination_simp]:
  "child kvs k = Some v \<Longrightarrow> size v < Suc (size_list (\<lambda>x. Suc (size (snd x))) kvs)"
proof -
  assume "child kvs k = Some v"
  then have "(k, v) \<in> set kvs"
    by (rule child_mem)
  then have "(\<lambda>x. Suc (size (snd x))) (k, v) \<le> size_list (\<lambda>x. Suc (size (snd x))) kvs"
    by (rule size_list_estimation') simp
  then show ?thesis by simp
qed

fun extractTextFromElement :: "node \<Rightarrow> jstring list \<Rightarrow> jstring list" where
  "extractTextFromElement Null parts = parts"
| "extractTextFromElement (Str s) parts =
     (let cleanText = trim s in
      if cleanText \<noteq> [] \<and> \<not> includesStr cleanText (js ''http://schemas.microsoft.com'')
      then parts @ [cleanText] else parts)"
| "extractTextFromElement (Arr xs) parts = fold extractTextFromElement xs parts"
| "extractTextFromElement (Obj kvs) parts =
     (case child kvs (js ''w:t'') of
        Some wt \<Rightarrow> pushLiteral (literalText wt) parts
      | None \<Rightarrow>
     (case child kvs (js ''w:p'') of
        Some p \<Rightarrow> extractTextFromElement p (paragraphBreak parts)
      | None \<Rightarrow>
     (case child kvs (js ''w:r'') of
        Some r \<Rightarrow> extractTextFromElement r parts
      | None \<Rightarrow>
     (case child kvs (js ''w:tab'') of
        Some _ \<Rightarrow> parts @ [[9]]
      | None \<Rightarrow>
     (case child kvs (js ''w:br'') of
        Some _ \<Rightarrow> parts @ [[10]]
      | None \<Rightarrow>
     (case child kvs (js ''w:document'') of
        Some d \<Rightarrow> extractTextFromElement d parts
      | None \<Rightarrow>
     (case child kvs (js ''w:body'') of
        Some b \<Rightarrow> extractTextFromElement b parts
      | None \<Rightarrow>
        fold (\<lambda>(key, v) ps. if included key then extractTextFromElement v ps else ps)
          kvs parts)))))))"

section \<open>Text extraction: normalisation, fallback, result\<close>

text \<open>
  \<open>s.replace(/re/g, ...)\<close> for a pattern with no look-around that never matches the
  empty string: scan from the left; where the pattern matches at the current position
  (the matcher returns the length of the match there, leftmost alternative and greedy
  as the engine finds it), emit the replacement of the matched text and go on behind the
  match; elsewhere copy one code unit.
\<close>

function replaceAll :: "(jstring \<Rightarrow> nat option) \<Rightarrow> (jstring \<Rightarrow> jstring) \<Rightarrow> jstring \<Rightarrow> jstring" where
  "replaceAll m r [] = []"
| "replaceAll m r (c # cs) =
     (case m (c # cs) of
        Some n \<Rightarrow>
          (if 0 < n then r (take n (c # cs)) @ replaceAll m r (drop n (c # cs))
           else c # replaceAll m r cs)
      | None \<Rightarrow> c # replaceAll m r cs)"
  by pat_completeness auto
termination
  by (relation "measure (\<lambda>(m, r, s). length s)") auto

definition runOf :: "(jchar \<Rightarrow> bool) \<Rightarrow> nat \<Rightarrow> jstring \<Rightarrow> nat option" where
  \<comment> \<open>\<open>[class]{k,}\<close> with \<open>k > 0\<close>: the whole run of the class, when it has \<open>k\<close> units or more\<close>
  "runOf cls k s = (let n = length (takeWhile cls s) in if k \<le> n then Some n else None)"

definition pair :: "(jchar \<Rightarrow> bool) \<Rightarrow> (jchar \<Rightarrow> bool) \<Rightarrow> jstring \<Rightarrow> nat option" where
  \<comment> \<open>\<open>([a])([b])\<close>\<close>
  "pair a b s = (case s of x # y # _ \<Rightarrow> (if a x \<and> b y then Some 2 else None) | _ \<Rightarrow> None)"

definition capsWord :: "jstring \<Rightarrow> nat option" where
  \<comment> \<open>\<open>([A-Z])([A-Z][a-z])\<close>\<close>
  "capsWord s =
     (case s of x # y # z # _ \<Rightarrow> (if is_upper x \<and> is_upper y \<and> is_lower z then Some 3 else None)
      | _ \<Rightarrow> None)"

definition spaced :: "jstring \<Rightarrow> jstring" where
  \<comment> \<open>the replacement \<open>'$1 $2'\<close>, \<open>$1\<close> being one code unit\<close>
  "spaced t = (case t of x # rest \<Rightarrow> x # 32 # rest | [] \<Rightarrow> [])"

definition collapseSpace :: "jstring \<Rightarrow> jstring" where
  \<comment> \<open>\<open>.replace(/\s+/g, ' ')\<close>\<close>
  "collapseSpace = replaceAll (runOf is_space 1) (\<lambda>_. [32])"

definition normalise :: "jstring \<Rightarrow> jstring" where
  \<comment> \<open>the chain of replacements applied to the joined fragments, in the source's order\<close>
  "normalise s0 =
     (let s1 = replaceAll (runOf (\<lambda>c. c = 10) 3) (\<lambda>_. [10, 10]) s0;
          s2 = replaceAll (runOf (\<lambda>c. c = 32 \<or> c = 9) 1) (\<lambda>_. [32]) s1;
          s3 = replaceAll (\<lambda>s. if startsWith s [10, 32] then Some 2 else None) (\<lambda>_. [10]) s2;
          s4 = replaceAll (pair is_lower is_upper) spaced s3;
          s5 = replaceAll capsWord spaced s4;
          s6 = replaceAll (pair is_digit is_upper) spaced s5;
          s7 = replaceAll (pair is_lower is_digit) spaced s6;
          s8 = replaceAll (runOf is_hex 8) (\<lambda>_. []) s7;
          s9 = collapseSpace s8
      in trim s9)"

definition primaryText :: "node \<Rightarrow> jstring" where
  \<comment> \<open>\<open>finalText\<close> before the fallback is considered\<close>
  "primaryText parsedDoc = normalise (join [32] (extractTextFromElement parsedDoc []))"

fun findText :: "node \<Rightarrow> jstring list \<Rightarrow> jstring list" where
  "findText Null parts = parts"
| "findText (Str s) parts =
     (if trim s \<noteq> [] \<and> \<not> includesStr s (js ''http://schemas'') then parts @ [trim s] else parts)"
| "findText (Arr xs) parts = fold findText xs parts"
| "findText (Obj kvs) parts = fold findText (map snd kvs) parts"

definition allDigits :: "jstring \<Rightarrow> bool" where
  \<comment> \<open>\<open>/^[0-9]+$/.test(text)\<close>\<close>
  "allDigits s \<longleftrightarrow> s \<noteq> [] \<and> list_all is_digit s"

definition extractTextFallback :: "node \<Rightarrow> jstring" where
  "extractTextFallback obj =
     trim (collapseSpace (join [32]
       (filter (\<lambda>text. 2 < length text \<and> \<not> allDigits text) (findText obj []))))"

definition extractText :: "node \<Rightarrow> jstring" where
  "extractText parsedDoc =
     (let finalText = primaryText parsedDoc in
      if finalText = [] \<or> length finalText < 10 then
        (let fallbackText = extractTextFallback parsedDoc in
         if fallbackText \<noteq> [] \<and> length finalText < length fallbackText
         then fallbackText else finalText)
      else finalText)"

section \<open>Values handed to string operations\<close>

text \<open>
  \<open>ToString\<close> of a node, as a template literal and \<open>parseInt\<close> apply it: a string is
  itself, an array is its elements joined by commas (a \<open>null\<close> element giving the empty
  string), an object is \<open>[object Object]\<close>.
\<close>

fun toStringNode :: "node \<Rightarrow> jstring" where
  "toStringNode Null = js ''null''"
| "toStringNode (Str s) = s"
| "toStringNode (Arr xs) =
     join (js '','') (map (\<lambda>x. if x = Null then [] else toStringNode x) xs)"
| "toStringNode (Obj kvs) = js ''[object Object]''"

text \<open>
  A Number that \<open>parseInt\<close> returns is \<open>NaN\<close> or an integer; \<open>Num i\<close> stands for the
  Number nearest to the integer \<open>i\<close> (\<open>i\<close> itself up to \<open>2^53\<close>).
\<close>

datatype jsnumber = NaN | Num int

definition digitValue :: "nat \<Rightarrow> jchar \<Rightarrow> nat option" where
  \<comment> \<open>the value of a code unit as a digit of the radix, 10 or 16\<close>
  "digitValue radix c =
     (if is_digit c then Some (c - 48)
      else if radix = 16 \<and> 97 \<le> c \<and> c \<le> 102 then Some (c - 87)
      else if radix = 16 \<and> 65 \<le> c \<and> c \<le> 70 then Some (c - 55)
      else None)"

definition parseDigits :: "nat \<Rightarrow> jstring \<Rightarrow> jsnumber" where
  \<comment> \<open>the longest prefix of digits of the radix, as a number; \<open>NaN\<close> when it is empty\<close>
  "parseDigits radix s =
     (let z = takeWhile (\<lambda>c. digitValue radix c \<noteq> None) s in
      if z = [] then NaN
      else Num (int (foldl (\<lambda>acc c. acc * radix + the (digitValue radix c)) 0 z)))"

definition negate :: "jsnumber \<Rightarrow> jsnumber" where
  "negate x = (case x of NaN \<Rightarrow> NaN | Num i \<Rightarrow> Num (- i))"

definition parseInt :: "jstring \<Rightarrow> jsnumber" where
  \<comment> \<open>\<open>parseInt(string)\<close> with no radix: leading white space, a sign, a \<open>0x\<close> prefix\<close>
  "parseInt inputString =
     (let s = trimStart inputString;
          neg = (s \<noteq> [] \<and> hd s = 45);
          s1 = (if s \<noteq> [] \<and> (hd s = 43 \<or> hd s = 45) then tl s else s);
          hex = (startsWith s1 (js ''0x'') \<or> startsWith s1 (js ''0X''));
          n = (if hex then parseDigits 16 (drop 2 s1) else parseDigits 10 s1)
      in if neg then negate n else n)"

section \<open>Metadata extraction\<close>

text \<open>
  The package read from the container: part names with their contents, in the order
  \<open>Object.keys\<close> enumerates them; \<open>docxContent[name]\<close> reads the entry of that name.
\<close>

type_synonym docx = "(jstring \<times> jstring) list"

definition part :: "docx \<Rightarrow> jstring \<Rightarrow> jstring option" where
  \<comment> \<open>\<open>docxContent[name]\<close> when it is truthy (there and not empty)\<close>
  "part docxContent name =
     (case map_of docxContent name of Some s \<Rightarrow> (if s \<noteq> [] then Some s else None) | None \<Rightarrow> None)"

text \<open>What a collaborator throws: an \<open>Error\<close> with its message, or some other value.\<close>

datatype exn = Error jstring | Thrown

definition errorMessage :: "exn \<Rightarrow> jstring" where
  \<comment> \<open>\<open>error instanceof Error ? error.message : 'Unknown error'\<close>\<close>
  "errorMessage e = (case e of Error m \<Rightarrow> m | Thrown \<Rightarrow> js ''Unknown error'')"

text \<open>
  A field of the metadata is \<open>None\<close> when it is \<open>undefined\<close>. The title, author and
  subject are stored as the parser gives them; a date is what the \<open>Date\<close> constructor
  makes of the value, a parameter of the model.
\<close>

record 'd DocumentMetadata =
  title :: "node option"
  author :: "node option"
  subject :: "node option"
  creator :: "node option"
  created :: "'d option"
  modified :: "'d option"
  pages :: "jsnumber option"
  words :: "jsnumber option"
  characters :: "jsnumber option"

definition emptyMetadata :: "'d DocumentMetadata" where
  "emptyMetadata =
     \<lparr>title = None, author = None, subject = None, creator = None, created = None,
      modified = None, pages = None, words = None, characters = None\<rparr>"

fun member :: "node \<Rightarrow> jstring \<Rightarrow> node option" where
  \<comment> \<open>\<open>value[k]\<close> as it is, \<open>None\<close> for \<open>undefined\<close>; the value is not \<open>null\<close>\<close>
  "member (Obj kvs) k = map_of kvs k"
| "member _ k = None"

definition orEmpty :: "node option \<Rightarrow> node" where
  \<comment> \<open>\<open>x || {}\<close>\<close>
  "orEmpty x = (case x of Some v \<Rightarrow> (if truthy v then v else Obj []) | None \<Rightarrow> Obj [])"

definition coreProperties :: "(node \<Rightarrow> 'd) \<Rightarrow> node \<Rightarrow> 'd DocumentMetadata \<Rightarrow> 'd DocumentMetadata" where
  \<comment> \<open>the assignments from a parsed, non-null core-properties part\<close>
  "coreProperties mkDate parsed metadata =
     (let props = orEmpty (member parsed (js ''cp:coreProperties''));
          m1 = metadata\<lparr>title := member props (js ''dc:title''),
                         author := member props (js ''dc:creator''),
                         subject := member props (js ''dc:subject'')\<rparr>;
          m2 = (case getProp props (js ''dcterms:created'') of
                  Some v \<Rightarrow> m1\<lparr>created := Some (mkDate v)\<rparr>
                | None \<Rightarrow> m1)
      in (case getProp props (js ''dcterms:modified'') of
            Some v \<Rightarrow> m2\<lparr>modified := Some (mkDate v)\<rparr>
          | None \<Rightarrow> m2))"

definition appProperties :: "node \<Rightarrow> 'd DocumentMetadata \<Rightarrow> 'd DocumentMetadata" where
  \<comment> \<open>the assignments from a parsed, non-null application-properties part\<close>
  "appProperties parsed metadata =
     (let props = orEmpty (member parsed (js ''Properties''));
          m1 = (case getProp props (js ''Pages'') of
                  Some v \<Rightarrow> metadata\<lparr>pages := Some (parseInt (toStringNode v))\<rparr>
                | None \<Rightarrow> metadata);
          m2 = (case getProp props (js ''Words'') of
                  Some v \<Rightarrow> m1\<lparr>words := Some (parseInt (toStringNode v))\<rparr>
                | None \<Rightarrow> m1)
      in (case getProp props (js ''Characters'') of
            Some v \<Rightarrow> m2\<lparr>characters := Some (parseInt (toStringNode v))\<rparr>
          | None \<Rightarrow> m2))"

text \<open>
  \<open>extractMetadata\<close>: both stages run inside one \<open>try\<close>, whose \<open>catch\<close> is empty, so a
  throw (the parser rejecting, or a property read on a \<open>null\<close> parse result) ends the
  function with the metadata assigned so far. The second component lists the texts
  handed to the XML parser, in order.
\<close>

definition extractMetadata ::
  "(jstring \<Rightarrow> exn + node) \<Rightarrow> (node \<Rightarrow> 'd) \<Rightarrow> docx \<Rightarrow> 'd DocumentMetadata \<times> jstring list" where
  "extractMetadata parseString mkDate docxContent =
     (let afterCore =
            (case part docxContent (js ''docProps/core.xml'') of
               Some coreProps \<Rightarrow>
                 (case parseString coreProps of
                    Inl e \<Rightarrow> (Inl emptyMetadata, [coreProps])
                  | Inr Null \<Rightarrow> (Inl emptyMetadata, [coreProps])
                  | Inr parsed \<Rightarrow> (Inr (coreProperties mkDate parsed emptyMetadata), [coreProps]))
             | None \<Rightarrow> (Inr emptyMetadata, []))
      in case afterCore of
           (Inl metadata, calls) \<Rightarrow> (metadata, calls)
         | (Inr metadata, calls) \<Rightarrow>
             (case part docxContent (js ''docProps/app.xml'') of
                Some appProps \<Rightarrow>
                  (case parseString appProps of
                     Inl e \<Rightarrow> (metadata, calls @ [appProps])
                   | Inr Null \<Rightarrow> (metadata, calls @ [appProps])
                   | Inr parsed \<Rightarrow> (appProperties parsed metadata, calls @ [appProps]))
              | None \<Rightarrow> (metadata, calls)))"

section \<open>Image extraction\<close>

definition toLowerAscii :: "jchar \<Rightarrow> jchar" where
  "toLowerAscii c = (if is_upper c then c + 32 else c)"

definition isImageName :: "jstring \<Rightarrow> bool" where
  \<comment> \<open>\<open>startsWith('word/media/')\<close> and \<open>/\.(png|jpg|jpeg|gif|bmp)$/i\<close>; without the
      \<open>u\<close> flag only an ASCII letter matches an ASCII letter of the pattern\<close>
  "isImageName fileName \<longleftrightarrow>
     startsWith fileName (js ''word/media/'') \<and>
     (\<exists>ext \<in> set [js ''.png'', js ''.jpg'', js ''.jpeg'', js ''.gif'', js ''.bmp''].
        endsWith (map toLowerAscii fileName) ext)"

definition extractImages :: "(jstring \<Rightarrow> 'b) \<Rightarrow> docx \<Rightarrow> 'b list" where
  \<comment> \<open>the payload of every image part that is not empty, decoded by \<open>Buffer.from(_, 'base64')\<close>\<close>
  "extractImages fromBase64 docxContent =
     concat (map (\<lambda>imageFile.
                    case part docxContent imageFile of
                      Some imageData \<Rightarrow> [fromBase64 imageData]
                    | None \<Rightarrow> [])
                 (filter isImageName (map fst docxContent)))"

section \<open>Configuration objects\<close>

text \<open>
  A configuration is a JavaScript object: a finite map from property names to values.
  The fields of \<open>WordConfig\<close> hold a boolean, a string or \<open>undefined\<close>. The spread
  \<open>{...a, ...b}\<close> is the map \<open>a ++ b\<close>: a key of \<open>b\<close> overrides, also with the value
  \<open>undefined\<close>.
\<close>

datatype jsvalue = Undefined | Bool bool | StrV jstring

type_synonym WordConfig = "jstring \<rightharpoonup> jsvalue"

definition isTrue :: "jsvalue option \<Rightarrow> bool" where
  \<comment> \<open>the truthiness of a property read\<close>
  "isTrue x = (case x of Some (Bool b) \<Rightarrow> b | Some (StrV s) \<Rightarrow> s \<noteq> [] | _ \<Rightarrow> False)"

definition defaultConfig :: WordConfig where
  "defaultConfig =
     [js ''extractImages'' \<mapsto> Bool False,
      js ''preserveFormatting'' \<mapsto> Bool True,
      js ''includeMetadata'' \<mapsto> Bool True,
      js ''outputFormat'' \<mapsto> StrV (js ''text''),
      js ''safetyChecks'' \<mapsto> Bool True]"

section \<open>The orchestrator\<close>

record SafetyResult =
  isSafe :: bool
  issues :: "jstring list"
  hash :: jstring
  fileSize :: nat

text \<open>
  The collaborators of \<open>parseDocument\<close>: the safety validator, the container reader
  (the answer of \<open>extractDocxContent\<close>, which opens and drains the ZIP file, when its
  promise settles; the function itself is written out further down), the XML parser, the
  \<open>Date\<close> constructor, the base64 decoder and the two readings of the clock. A
  collaborator that can throw or reject returns a sum.
\<close>

record ('d, 'b) collaborators =
  validateFile :: "jstring \<Rightarrow> exn + SafetyResult"
  extractDocxContent :: "jstring \<Rightarrow> exn + docx"
  parseString :: "jstring \<Rightarrow> exn + node"
  newDate :: "node \<Rightarrow> 'd"
  fromBase64 :: "jstring \<Rightarrow> 'b"
  startTime :: int
  endTime :: int

record ('d, 'b) ProcessingResult =
  success :: bool
  content :: "jstring option"
  metadata :: "'d DocumentMetadata option"
  images :: "'b list option"
  warnings :: "jstring list"
  errors :: "jstring list"
  processingTime :: "int option"

text \<open>The calls \<open>parseDocument\<close> makes, in the order it makes them.\<close>

datatype call =
    ValidateFile jstring
  | OpenContainer jstring
  | ParseXml jstring
  | ExtractText
  | ExtractMetadata
  | ExtractImages

definition initialResult :: "('d, 'b) ProcessingResult" where
  "initialResult =
     \<lparr>success = False, content = None, metadata = None, images = None,
      warnings = [], errors = [], processingTime = None\<rparr>"

definition caught :: "exn \<Rightarrow> ('d, 'b) ProcessingResult \<Rightarrow> ('d, 'b) ProcessingResult" where
  \<comment> \<open>the \<open>catch\<close> block of \<open>parseDocument\<close>\<close>
  "caught e result = result\<lparr>errors := errors result @ [js ''Parsing failed: '' @ errorMessage e]\<rparr>"

definition extractStages ::
  "('d, 'b) collaborators \<Rightarrow> WordConfig \<Rightarrow> docx \<Rightarrow> node \<Rightarrow> ('d, 'b) ProcessingResult \<Rightarrow>
   ('d, 'b) ProcessingResult \<times> call list" where
  \<comment> \<open>from \<open>result.content = this.extractText(parsedDoc)\<close> to the end of the \<open>try\<close> block\<close>
  "extractStages c config docxContent parsedDoc result =
     (let r1 = result\<lparr>content := Some (extractText parsedDoc)\<rparr>;
          (r2, calls2) =
            (if isTrue (config (js ''includeMetadata''))
             then (let (m, parsed) = extractMetadata (parseString c) (newDate c) docxContent
                   in (r1\<lparr>metadata := Some m\<rparr>, ExtractMetadata # map ParseXml parsed))
             else (r1, []));
          (r3, calls3) =
            (if isTrue (config (js ''extractImages''))
             then (r2\<lparr>images := Some (extractImages (fromBase64 c) docxContent)\<rparr>, [ExtractImages])
             else (r2, []))
      in (r3\<lparr>success := True, processingTime := Some (endTime c - startTime c)\<rparr>,
          ExtractText # calls2 @ calls3))"

definition readStages ::
  "('d, 'b) collaborators \<Rightarrow> WordConfig \<Rightarrow> jstring \<Rightarrow> ('d, 'b) ProcessingResult \<Rightarrow>
   ('d, 'b) ProcessingResult \<times> call list" where
  \<comment> \<open>from \<open>const docxContent = await this.extractDocxContent(filePath)\<close> on\<close>
  "readStages c config filePath result =
     (case extractDocxContent c filePath of
        Inl e \<Rightarrow> (caught e result, [OpenContainer filePath])
      | Inr docxContent \<Rightarrow>
          (case part docxContent (js ''word/document.xml'') of
             None \<Rightarrow>
               (result\<lparr>errors := errors result @ [js ''Invalid DOCX: Missing document.xml'']\<rparr>,
                [OpenContainer filePath])
           | Some documentXml \<Rightarrow>
               (case parseString c documentXml of
                  Inl e \<Rightarrow> (caught e result, [OpenContainer filePath, ParseXml documentXml])
                | Inr parsedDoc \<Rightarrow>
                    (let (r, calls) = extractStages c config docxContent parsedDoc result
                     in (r, OpenContainer filePath # ParseXml documentXml # calls)))))"

definition parseDocument ::
  "('d, 'b) collaborators \<Rightarrow> WordConfig \<Rightarrow> jstring \<Rightarrow> ('d, 'b) ProcessingResult \<times> call list" where
  "parseDocument c config filePath =
     (let result = initialResult in
      if isTrue (config (js ''safetyChecks'')) then
        (case validateFile c filePath of
           Inl e \<Rightarrow> (caught e result, [ValidateFile filePath])
         | Inr safetyResult \<Rightarrow>
             (if \<not> isSafe safetyResult
              then (result\<lparr>errors := issues safetyResult\<rparr>, [ValidateFile filePath])
              else (let (r, calls) = readStages c config filePath result
                    in (r, ValidateFile filePath # calls))))
      else readStages c config filePath result)"

section \<open>Reading the container\<close>

text \<open>
  What the ZIP library does with a file, as \<open>extractDocxContent\<close> sees it through its
  callbacks. \<open>yauzl.open\<close> calls back with an error (or with no zipfile), or with a
  zipfile. Each \<open>readEntry\<close> then makes the zipfile emit the next \<open>entry\<close>, an
  \<open>error\<close>, or \<open>end\<close> when the entries are exhausted. \<open>openReadStream\<close> calls back
  with an error, with no stream, or with a stream, which emits its chunks and then
  \<open>end\<close> (the chunks decoded as UTF-8 being the text given here) or \<open>error\<close>.
\<close>

datatype readStream = EndsWith jstring | FailsWith exn

datatype opened = StreamError exn | NoStream | Stream readStream

datatype zipEvent = Entry jstring opened | ZipError exn

datatype zipOpen = OpenError "exn option" | Zipfile "zipEvent list"

text \<open>
  What becomes of a promise: it is resolved, it is rejected, or it is never settled
  because an emitter raised an \<open>error\<close> event for which no listener is registered
  (the runtime raises such an event as an exception outside the promise).
\<close>

datatype 'a promise = Resolved 'a | Rejected exn | Unhandled exn

fun assign :: "docx \<Rightarrow> jstring \<Rightarrow> jstring \<Rightarrow> docx" where
  \<comment> \<open>\<open>content[name] = text\<close>: an existing key keeps its place, a new one comes last\<close>
  "assign [] name text = [(name, text)]"
| "assign ((k, v) # rest) name text =
     (if k = name then (k, text) # rest else (k, v) # assign rest name text)"

fun readEntries :: "zipEvent list \<Rightarrow> docx \<Rightarrow> docx promise" where
  \<comment> \<open>the listeners for \<open>entry\<close>, \<open>end\<close> and \<open>error\<close> of the zipfile, from one
      \<open>readEntry\<close> to the next; the read stream has listeners for \<open>data\<close> and
      \<open>end\<close> only\<close>
  "readEntries [] parts = Resolved parts"
| "readEntries (ZipError err # rest) parts = Rejected err"
| "readEntries (Entry fileName r # rest) parts =
     (if endsWith fileName (js ''/'') then readEntries rest parts
      else (case r of
              StreamError err \<Rightarrow> Rejected err
            | NoStream \<Rightarrow> readEntries rest parts
            | Stream (EndsWith text) \<Rightarrow> readEntries rest (assign parts fileName text)
            | Stream (FailsWith err) \<Rightarrow> Unhandled err))"

definition extractDocxContentPromise :: "zipOpen \<Rightarrow> docx promise" where
  \<comment> \<open>the promise that \<open>extractDocxContent\<close> returns\<close>
  "extractDocxContentPromise z =
     (case z of
        OpenError (Some err) \<Rightarrow> Rejected err
      | OpenError None \<Rightarrow> Rejected (Error (js ''Failed to open DOCX file''))
      | Zipfile events \<Rightarrow> readEntries events [])"

text \<open>
  \<open>parseDocument\<close> with the container reader written out. The validator and the XML
  parser are taken to answer, as before; the \<open>await\<close> of the container reader gives its
  answer to the rest of the \<open>try\<close> block when the promise settles, and nothing when it
  does not.
\<close>

definition readStagesPromise ::
  "('d, 'b) collaborators \<Rightarrow> (jstring \<Rightarrow> zipOpen) \<Rightarrow> WordConfig \<Rightarrow> jstring \<Rightarrow>
   ('d, 'b) ProcessingResult \<Rightarrow> (('d, 'b) ProcessingResult \<times> call list) promise" where
  \<comment> \<open>from \<open>const docxContent = await this.extractDocxContent(filePath)\<close> on\<close>
  "readStagesPromise c yauzlOpen config filePath result =
     (case extractDocxContentPromise (yauzlOpen filePath) of
        Resolved docxContent \<Rightarrow>
          Resolved (readStages (c\<lparr>extractDocxContent := \<lambda>_. Inr docxContent\<rparr>) config filePath result)
      | Rejected err \<Rightarrow>
          Resolved (readStages (c\<lparr>extractDocxContent := \<lambda>_. Inl err\<rparr>) config filePath result)
      | Unhandled err \<Rightarrow> Unhandled err)"

definition parseDocumentPromise ::
  "('d, 'b) collaborators \<Rightarrow> (jstring \<Rightarrow> zipOpen) \<Rightarrow> WordConfig \<Rightarrow> jstring \<Rightarrow>
   (('d, 'b) ProcessingResult \<times> call list) promise" where
  \<comment> \<open>the promise that \<open>parseDocument\<close> returns\<close>
  "parseDocumentPromise c yauzlOpen config filePath =
     (let result = initialResult in
      if isTrue (config (js ''safetyChecks'')) then
        (case validateFile c filePath of
           Inl e \<Rightarrow> Resolved (caught e result, [ValidateFile filePath])
         | Inr safetyResult \<Rightarrow>
             (if \<not> isSafe safetyResult
              then Resolved (result\<lparr>errors := issues safetyResult\<rparr>, [ValidateFile filePath])
              else (case readStagesPromise c yauzlOpen config filePath result of
                      Resolved (r, calls) \<Rightarrow> Resolved (r, ValidateFile filePath # calls)
                    | Rejected err \<Rightarrow> Rejected err
                    | Unhandled err \<Rightarrow> Unhandled err)))
      else readStagesPromise c yauzlOpen config filePath result)"

section \<open>Format rendering\<close>

definition is_terminator :: "jchar \<Rightarrow> bool" where
  \<comment> \<open>\<open>[.!?]\<close>\<close>
  "is_terminator c \<longleftrightarrow> c = 46 \<or> c = 33 \<or> c = 63"

text \<open>
  \<open>content.split(/(?<=[.!?])\s+/)\<close>: a separator is a maximal run of white space whose
  first unit stands right behind a terminator. The arguments are the code unit before
  the current position (if any), the piece collected since the last separator, in
  reverse, and the rest of the string.
\<close>

function splitFrom :: "jchar option \<Rightarrow> jstring \<Rightarrow> jstring \<Rightarrow> jstring list" where
  "splitFrom prev piece [] = [rev piece]"
| "splitFrom prev piece (c # cs) =
     (if (case prev of Some p \<Rightarrow> is_terminator p | None \<Rightarrow> False) \<and> is_space c
      then rev piece # splitFrom (Some (last (c # takeWhile is_space cs))) [] (dropWhile is_space cs)
      else splitFrom (Some c) (c # piece) cs)"
  by pat_completeness auto
termination
  by (relation "measure (\<lambda>(prev, piece, s). length s)")
     (auto simp: length_dropWhile_le le_imp_less_Suc)

definition splitSentences :: "jstring \<Rightarrow> jstring list" where
  "splitSentences txt = splitFrom None [] txt"

definition headingLike :: "jstring \<Rightarrow> bool" where
  \<comment> \<open>\<open>/^[A-Z][a-z]*\s*[A-Z]/.test(s)\<close>; the classes are disjoint, so the greedy
      match of each star is the only one that can succeed\<close>
  "headingLike s =
     (case s of
        [] \<Rightarrow> False
      | c # cs \<Rightarrow>
          is_upper c \<and>
          (case dropWhile is_space (dropWhile is_lower cs) of [] \<Rightarrow> False | d # _ \<Rightarrow> is_upper d))"

definition flushParagraph :: "jstring \<Rightarrow> jstring \<Rightarrow> jstring" where
  \<comment> \<open>\<open>markdown += currentParagraph.trim() + '\n\n'\<close>\<close>
  "flushParagraph markdown currentParagraph = markdown @ trim currentParagraph @ [10, 10]"

definition sentenceStep :: "jstring \<times> jstring \<Rightarrow> jstring \<Rightarrow> jstring \<times> jstring" where
  \<comment> \<open>one turn of the loop over the sentences, on \<open>(markdown, currentParagraph)\<close>\<close>
  "sentenceStep state sentence =
     (let (markdown, currentParagraph) = state;
          cleanSentence = trim sentence
      in if cleanSentence = [] then (markdown, currentParagraph)
         else if length cleanSentence < 50 \<and> headingLike cleanSentence then
           (let flushed = (if currentParagraph \<noteq> [] then flushParagraph markdown currentParagraph
                           else markdown)
            in (flushed @ js ''## '' @ cleanSentence @ [10, 10], []))
         else
           (let paragraph = currentParagraph @ cleanSentence @ [32]
            in if 200 < length paragraph then (flushParagraph markdown paragraph, [])
               else (markdown, paragraph)))"

definition markdownHeader :: "'d DocumentMetadata option \<Rightarrow> jstring" where
  \<comment> \<open>the title and author lines\<close>
  "markdownHeader meta =
     (let t = (case meta of Some m \<Rightarrow> (case title m of Some v \<Rightarrow> (if truthy v then Some v else None) | None \<Rightarrow> None)
                          | None \<Rightarrow> None);
          a = (case meta of Some m \<Rightarrow> (case author m of Some v \<Rightarrow> (if truthy v then Some v else None) | None \<Rightarrow> None)
                          | None \<Rightarrow> None)
      in (case t of Some v \<Rightarrow> js ''# '' @ toStringNode v @ [10, 10] | None \<Rightarrow> [])
         @ (case a of Some v \<Rightarrow> js ''**Author:** '' @ toStringNode v @ [10, 10] | None \<Rightarrow> []))"

definition convertToMarkdown :: "jstring \<Rightarrow> 'd DocumentMetadata option \<Rightarrow> jstring" where
  "convertToMarkdown txt meta =
     (let (markdown, currentParagraph) =
            foldl sentenceStep (markdownHeader meta, []) (splitSentences txt);
          markdown' = (if trim currentParagraph \<noteq> [] then flushParagraph markdown currentParagraph
                       else markdown)
      in trim markdown')"

definition escapeHtml :: "jstring \<Rightarrow> jstring" where
  "escapeHtml text =
     (let one = (\<lambda>ch s. case s of c # _ \<Rightarrow> (if c = ch then Some (1::nat) else None) | [] \<Rightarrow> None);
          t1 = replaceAll (one 38) (\<lambda>_. js ''&amp;'') text;
          t2 = replaceAll (one 60) (\<lambda>_. js ''&lt;'') t1;
          t3 = replaceAll (one 62) (\<lambda>_. js ''&gt;'') t2;
          t4 = replaceAll (one 34) (\<lambda>_. js ''&quot;'') t3
      in replaceAll (one 39) (\<lambda>_. js ''&#39;'') t4)"

fun splitLines :: "jstring \<Rightarrow> jstring \<Rightarrow> jstring list" where
  \<comment> \<open>\<open>content.split('\n')\<close>, the first argument being the line collected so far, in reverse\<close>
  "splitLines line [] = [rev line]"
| "splitLines line (c # cs) = (if c = 10 then rev line # splitLines [] cs else splitLines (c # line) cs)"

definition convertToHtml :: "jstring \<Rightarrow> 'd DocumentMetadata option \<Rightarrow> exn + jstring" where
  \<comment> \<open>\<open>escapeHtml\<close> calls \<open>replace\<close> on the title: a truthy title that is not a string
      raises a TypeError\<close>
  "convertToHtml txt meta =
     (let t = (case meta of Some m \<Rightarrow> (case title m of Some v \<Rightarrow> (if truthy v then Some v else None) | None \<Rightarrow> None)
                          | None \<Rightarrow> None);
          body = concat (map (\<lambda>paragraph. js ''<p>'' @ escapeHtml paragraph @ js ''</p>'' @ [10])
                    (filter (\<lambda>p. trim p \<noteq> []) (splitLines [] txt)));
          top = js ''<!DOCTYPE html>'' @ [10] @ js ''<html>'' @ [10] @ js ''<head>'' @ [10]
                @ js ''<meta charset=\"utf-8\">'' @ [10];
          mid = js ''</head>'' @ [10] @ js ''<body>'' @ [10];
          bottom = js ''</body>'' @ [10] @ js ''</html>''
      in case t of
           None \<Rightarrow> Inr (top @ mid @ body @ bottom)
         | Some (Str s) \<Rightarrow>
             Inr (top @ js ''<title>'' @ escapeHtml s @ js ''</title>'' @ [10] @ mid
                  @ js ''<h1>'' @ escapeHtml s @ js ''</h1>'' @ [10] @ body @ bottom)
         | Some _ \<Rightarrow> Inl (Error (js ''text.replace is not a function'')))"

text \<open>
  \<open>convertToFormat\<close>. \<open>String.prototype.toLowerCase\<close> and the JSON rendering (which
  reads the clock) are parameters.
\<close>

definition convertToFormat ::
  "(jstring \<Rightarrow> jstring) \<Rightarrow> (jstring \<Rightarrow> 'd DocumentMetadata option \<Rightarrow> jstring) \<Rightarrow>
   jstring \<Rightarrow> jstring \<Rightarrow> 'd DocumentMetadata option \<Rightarrow> exn + jstring" where
  "convertToFormat toLowerCase jsonStringify txt format meta =
     (let f = toLowerCase format in
      if f = js ''markdown'' then Inr (convertToMarkdown txt meta)
      else if f = js ''html'' then convertToHtml txt meta
      else if f = js ''json'' then Inr (jsonStringify txt meta)
      else Inr txt)"

section \<open>The parser object and its configuration\<close>

text \<open>
  Objects live in a store: an address is an index into the list of objects allocated so
  far, and an object literal allocates the next address. The parser holds the address
  of its configuration in \<open>this.config\<close>; a caller that holds an address can assign to
  and delete the properties of the object there.
\<close>

record parserState =
  store :: "WordConfig list"
  thisConfig :: nat

definition construct :: "WordConfig list \<Rightarrow> WordConfig \<Rightarrow> parserState" where
  \<comment> \<open>\<open>this.config = { defaults, ...config }\<close>\<close>
  "construct st config = \<lparr>store = st @ [defaultConfig ++ config], thisConfig = length st\<rparr>"

definition updateConfig :: "WordConfig \<Rightarrow> parserState \<Rightarrow> parserState" where
  \<comment> \<open>\<open>this.config = { ...this.config, ...newConfig }\<close>\<close>
  "updateConfig newConfig s =
     \<lparr>store = store s @ [(store s ! thisConfig s) ++ newConfig], thisConfig = length (store s)\<rparr>"

definition getConfig :: "parserState \<Rightarrow> nat \<times> parserState" where
  \<comment> \<open>\<open>return { ...this.config }\<close>: the address returned, and the state after the allocation\<close>
  "getConfig s = (length (store s), s\<lparr>store := store s @ [store s ! thisConfig s]\<rparr>)"

datatype mutation = Assign jstring jsvalue | Delete jstring

definition mutate :: "nat \<Rightarrow> parserState \<Rightarrow> mutation \<Rightarrow> parserState" where
  \<comment> \<open>\<open>o[k] = v\<close> and \<open>delete o[k]\<close> on the object at an address\<close>
  "mutate r s mu =
     s\<lparr>store := (store s)[r := (case mu of
                                   Assign k v \<Rightarrow> (store s ! r)(k \<mapsto> v)
                                 | Delete k \<Rightarrow> (store s ! r)(k := None))]\<rparr>"

definition currentConfig :: "parserState \<Rightarrow> WordConfig" where
  \<comment> \<open>the object a method reads through \<open>this.config\<close>\<close>
  "currentConfig s = store s ! thisConfig s"

definition parseDocumentOn ::
  "parserState \<Rightarrow> ('d, 'b) collaborators \<Rightarrow> jstring \<Rightarrow> ('d, 'b) ProcessingResult \<times> call list" where
  \<comment> \<open>the method \<open>parseDocument\<close> called on the parser\<close>
  "parseDocumentOn s c filePath = parseDocument c (currentConfig s) filePath"

definition convertToFormatOn ::
  "parserState \<Rightarrow> (jstring \<Rightarrow> jstring) \<Rightarrow> (jstring \<Rightarrow> 'd DocumentMetadata option \<Rightarrow> jstring) \<Rightarrow>
   jstring \<Rightarrow> jstring \<Rightarrow> 'd DocumentMetadata option \<Rightarrow> exn + jstring" where
  \<comment> \<open>the method \<open>convertToFormat\<close> called on the parser: it reads no field of \<open>this\<close>\<close>
  "convertToFormatOn s toLowerCase jsonStringify txt format meta =
     convertToFormat toLowerCase jsonStringify txt format meta"

section \<open>Notions used to state the properties\<close>

fun noAdjacentSpaces :: "jstring \<Rightarrow> bool" where
  \<comment> \<open>no two white-space code units next to each other\<close>
  "noAdjacentSpaces [] = True"
| "noAdjacentSpaces [c] = True"
| "noAdjacentSpaces (c # d # cs) = (\<not> (is_space c \<and> is_space d) \<and> noAdjacentSpaces (d # cs))"

fun leaves :: "node \<Rightarrow> jstring list" where
  \<comment> \<open>every string leaf of a tree, in document order\<close>
  "leaves Null = []"
| "leaves (Str s) = [s]"
| "leaves (Arr xs) = concat (map leaves xs)"
| "leaves (Obj kvs) = concat (map (\<lambda>kv. leaves (snd kv)) kvs)"

definition excludedTag :: "jstring \<Rightarrow> bool" where
  \<comment> \<open>a tag outside the markup namespace, or one of a property, style, font or settings subtree\<close>
  "excludedTag key \<longleftrightarrow>
     \<not> startsWith key (js ''w:'') \<or> includesStr key (js ''Pr'') \<or> includesStr key (js ''Style'') \<or>
     includesStr key (js ''Properties'') \<or> includesStr key (js ''Fonts'') \<or>
     includesStr key (js ''Settings'')"

fun replaceExcluded :: "(jstring \<Rightarrow> node \<Rightarrow> node) \<Rightarrow> node \<Rightarrow> node" where
  \<comment> \<open>the tree with \<open>g key v\<close> in place of every child \<open>v\<close> under an excluded tag, at every
      level; the value of a literal-text tag is left as it is\<close>
  "replaceExcluded g Null = Null"
| "replaceExcluded g (Str s) = Str s"
| "replaceExcluded g (Arr xs) = Arr (map (replaceExcluded g) xs)"
| "replaceExcluded g (Obj kvs) =
     Obj (map (\<lambda>kv. (fst kv,
                       if fst kv = js ''w:t'' then snd kv
                       else if excludedTag (fst kv) then g (fst kv) (snd kv)
                       else replaceExcluded g (snd kv))) kvs)"

definition titleLikeSpec :: "jstring \<Rightarrow> bool" where
  \<comment> \<open>the capitalisation pattern in the words of the specification: the sentence starts
      with an uppercase letter and contains a later uppercase letter\<close>
  "titleLikeSpec s = (case s of [] \<Rightarrow> False | c # cs \<Rightarrow> is_upper c \<and> list_ex is_upper cs)"

fun breakFree :: "jchar option \<Rightarrow> jstring \<Rightarrow> bool" where
  \<comment> \<open>no sentence separator starts in the string, the code unit before it being given\<close>
  "breakFree prev [] = True"
| "breakFree prev (c # cs) =
     (\<not> ((case prev of Some p \<Rightarrow> is_terminator p | None \<Rightarrow> False) \<and> is_space c) \<and>
      breakFree (Some c) cs)"

definition keptLeaves :: "node \<Rightarrow> jstring list" where
  \<comment> \<open>the string leaves that are not empty once trimmed and hold no namespace URI, trimmed\<close>
  "keptLeaves t =
     map trim (filter (\<lambda>s. trim s \<noteq> [] \<and> \<not> includesStr s (js ''http://schemas'')) (leaves t))"

section \<open>Collaborators for the scenarios\<close>

definition constantParser :: "node \<Rightarrow> jstring \<Rightarrow> exn + node" where
  \<comment> \<open>an XML parser that gives the same tree for every text\<close>
  "constantParser tree text = Inr tree"

definition unitOf :: "'a \<Rightarrow> unit" where
  \<comment> \<open>stands for a date constructor or a decoder whose result is not looked at\<close>
  "unitOf x = ()"

definition verdict :: "bool \<Rightarrow> jstring list \<Rightarrow> jstring \<Rightarrow> exn + SafetyResult" where
  \<comment> \<open>a safety validator that gives the same verdict for every path\<close>
  "verdict safe found filePath = Inr \<lparr>isSafe = safe, issues = found, hash = [], fileSize = 0\<rparr>"

definition containerOf :: "docx \<Rightarrow> jstring \<Rightarrow> exn + docx" where
  \<comment> \<open>a container reader that finds the same package at every path\<close>
  "containerOf package filePath = Inr package"

definition scenarioA :: node where
  \<comment> \<open>the document part of Scenario A\<close>
  "scenarioA =
     Obj [(js ''w:document'',
           Obj [(js ''w:body'', Obj [(js ''w:p'', Obj [(js ''w:r'', Obj [(js ''w:t'', Str (js ''Hello''))])])])])]"

definition sampleCollaborators :: "bool \<Rightarrow> jstring list \<Rightarrow> (unit, unit) collaborators" where
  \<comment> \<open>the given verdict of the validator, a package holding only the document part, which
      parses to the tree of Scenario A\<close>
  "sampleCollaborators safe found =
     \<lparr>validateFile = verdict safe found,
      extractDocxContent = containerOf [(js ''word/document.xml'', js ''<w:document/>'')],
      parseString = constantParser scenarioA,
      newDate = unitOf,
      fromBase64 = unitOf,
      startTime = 1000,
      endTime = 1250\<rparr>"

definition zipOf :: "zipEvent list \<Rightarrow> jstring \<Rightarrow> zipOpen" where
  \<comment> \<open>a ZIP library that opens a zipfile with the same entries at every path\<close>
  "zipOf events filePath = Zipfile events"

section \<open>Evaluation\<close>

lemmas evaluation =
  extractText_def primaryText_def normalise_def child_def paragraphBreak_def pushLiteral_def
  literalText_def trim_def trimStart_def trimEnd_def is_space_def collapseSpace_def runOf_def
  pair_def capsWord_def spaced_def is_upper_def is_lower_def is_digit_def is_hex_def endsWith_def
  included_def extractTextFallback_def allDigits_def

section \<open>White space in the extracted text\<close>

lemma collapseSpace_Nil: "collapseSpace [] = []"
  by (simp add: collapseSpace_def)

lemma collapseSpace_nonspace:
  "\<not> is_space c \<Longrightarrow> collapseSpace (c # cs) = c # collapseSpace cs"
  by (simp add: collapseSpace_def runOf_def)

lemma collapseSpace_space:
  "is_space c \<Longrightarrow> collapseSpace (c # cs) = 32 # collapseSpace (dropWhile is_space cs)"
  by (simp add: collapseSpace_def runOf_def dropWhile_eq_drop)

lemma collapseSpace_set:
  "c \<in> set (collapseSpace s) \<Longrightarrow> is_space c \<Longrightarrow> c = 32"
proof (induction s rule: length_induct)
  case (1 s)
  show ?case
  proof (cases s)
    case Nil
    with 1 show ?thesis by (simp add: collapseSpace_Nil)
  next
    case (Cons d ds)
    show ?thesis
    proof (cases "is_space d")
      case True
      have "length (dropWhile is_space ds) < length s"
        using Cons by (simp add: length_dropWhile_le le_imp_less_Suc)
      with 1 Cons True show ?thesis
        by (auto simp: collapseSpace_space)
    next
      case False
      with 1 Cons show ?thesis
        by (auto simp: collapseSpace_nonspace)
    qed
  qed
qed

lemma noAdjacentSpaces_Cons_nonspace:
  "\<not> is_space c \<Longrightarrow> noAdjacentSpaces (c # cs) = noAdjacentSpaces cs"
  by (cases cs) simp_all

lemma noAdjacentSpaces_Cons_space:
  "noAdjacentSpaces (c # cs) = ((cs = [] \<or> \<not> (is_space c \<and> is_space (hd cs))) \<and> noAdjacentSpaces cs)"
  by (cases cs) simp_all

lemma collapseSpace_hd:
  "s \<noteq> [] \<Longrightarrow> \<not> is_space (hd s) \<Longrightarrow> collapseSpace s \<noteq> [] \<and> hd (collapseSpace s) = hd s"
  by (cases s) (simp_all add: collapseSpace_nonspace)

lemma collapseSpace_noAdjacent: "noAdjacentSpaces (collapseSpace s)"
proof (induction s rule: length_induct)
  case (1 s)
  show ?case
  proof (cases s)
    case Nil
    then show ?thesis by (simp add: collapseSpace_Nil)
  next
    case (Cons d ds)
    show ?thesis
    proof (cases "is_space d")
      case True
      let ?r = "dropWhile is_space ds"
      have len: "length ?r < length s"
        using Cons by (simp add: length_dropWhile_le le_imp_less_Suc)
      then have ih: "noAdjacentSpaces (collapseSpace ?r)" using 1 by blast
      have "collapseSpace ?r = [] \<or> \<not> is_space (hd (collapseSpace ?r))"
      proof (cases "?r = []")
        case True
        then have "collapseSpace ?r = []" by (simp only: collapseSpace_Nil)
        then show ?thesis by blast
      next
        case False
        then have "\<not> is_space (hd ?r)" by (rule hd_dropWhile)
        with False show ?thesis using collapseSpace_hd by metis
      qed
      then have "noAdjacentSpaces (32 # collapseSpace ?r)"
        using ih noAdjacentSpaces_Cons_space [of 32 "collapseSpace ?r"] by blast
      then show ?thesis
        using Cons collapseSpace_space [OF True, of ds] by (simp only:)
    next
      case False
      with 1 Cons show ?thesis
        by (simp add: collapseSpace_nonspace noAdjacentSpaces_Cons_nonspace)
    qed
  qed
qed

lemma noAdjacentSpaces_append: "noAdjacentSpaces (xs @ ys) \<Longrightarrow> noAdjacentSpaces xs \<and> noAdjacentSpaces ys"
proof (induction xs rule: noAdjacentSpaces.induct)
  case 1
  then show ?case by simp
next
  case (2 c)
  then show ?case by (cases ys) simp_all
next
  case (3 c d cs)
  then show ?case by simp
qed

lemma trimStart_suffix: "s = takeWhile is_space s @ trimStart s"
  by (simp add: trimStart_def)

lemma trimEnd_prefix: "s = trimEnd s @ rev (takeWhile is_space (rev s))"
  by (metis rev_append rev_rev_ident takeWhile_dropWhile_id trimEnd_def)

lemma trim_noAdjacent: "noAdjacentSpaces s \<Longrightarrow> noAdjacentSpaces (trim s)"
proof -
  assume a: "noAdjacentSpaces s"
  have "noAdjacentSpaces (trimStart s)"
    using a noAdjacentSpaces_append [of "takeWhile is_space s" "trimStart s"] trimStart_suffix [of s]
    by simp
  then show ?thesis
    using noAdjacentSpaces_append [of "trimEnd (trimStart s)" "rev (takeWhile is_space (rev (trimStart s)))"]
      trimEnd_prefix [of "trimStart s"]
    by (simp add: trim_def)
qed

lemma set_trim: "set (trim s) \<subseteq> set s"
proof -
  have "set (trimEnd u) \<subseteq> set u" for u
    using set_dropWhileD [of _ is_space "rev u"] by (auto simp: trimEnd_def)
  moreover have "set (trimStart s) \<subseteq> set s"
    using set_dropWhileD [of _ is_space s] by (auto simp: trimStart_def)
  ultimately show ?thesis unfolding trim_def by blast
qed

lemma trimEnd_id: "s \<noteq> [] \<Longrightarrow> \<not> is_space (last s) \<Longrightarrow> trimEnd s = s"
  by (cases "rev s") (auto simp: trimEnd_def last_rev  hd_rev[symmetric] simp del: )

lemma trimStart_id: "s \<noteq> [] \<Longrightarrow> \<not> is_space (hd s) \<Longrightarrow> trimStart s = s"
  by (cases s) (simp_all add: trimStart_def)

lemma trimEnd_last: "trimEnd s \<noteq> [] \<Longrightarrow> \<not> is_space (last (trimEnd s))"
  using hd_dropWhile [of is_space "rev s"] by (simp add: trimEnd_def last_rev)

lemma trimEnd_hd: "s \<noteq> [] \<Longrightarrow> \<not> is_space (hd s) \<Longrightarrow> trimEnd s \<noteq> [] \<and> hd (trimEnd s) = hd s"
proof -
  assume a: "s \<noteq> []" "\<not> is_space (hd s)"
  have "last (rev s) = hd s" using a by (simp add: last_rev)
  then have "dropWhile is_space (rev s) \<noteq> []"
    using a by (metis dropWhile_eq_Nil_conv last_in_set rev_is_Nil_conv)
  moreover have "last (dropWhile is_space (rev s)) = last (rev s)"
    using calculation by (metis last_appendR takeWhile_dropWhile_id)
  ultimately show ?thesis using a
    by (simp add: trimEnd_def hd_rev last_rev)
qed

lemma trim_ends: "trim s = [] \<or> (\<not> is_space (hd (trim s)) \<and> \<not> is_space (last (trim s)))"
proof (cases "trimStart s = []")
  case True
  then show ?thesis by (simp add: trim_def trimEnd_def)
next
  case False
  then have "\<not> is_space (hd (trimStart s))"
    unfolding trimStart_def by (rule hd_dropWhile)
  with False have "trimEnd (trimStart s) \<noteq> [] \<and> hd (trimEnd (trimStart s)) = hd (trimStart s)"
    by (rule trimEnd_hd)
  with \<open>\<not> is_space (hd (trimStart s))\<close> show ?thesis
    using trimEnd_last [of "trimStart s"] by (simp add: trim_def)
qed

lemma trim_idem: "trim (trim s) = trim s"
proof (cases "trim s = []")
  case True
  have "trim [] = []" by (simp add: trim_def trimStart_def trimEnd_def)
  with True show ?thesis by (simp only:)
next
  case False
  with trim_ends [of s] have e: "\<not> is_space (hd (trim s))" "\<not> is_space (last (trim s))" by auto
  have "trimStart (trim s) = trim s" using False e by (simp add: trimStart_id)
  then show ?thesis using False e by (simp add: trim_def [of "trim s"] trimEnd_id)
qed

lemma tidy_text:
  "(\<forall>c \<in> set (trim (collapseSpace s)). is_space c \<longrightarrow> c = 32) \<and>
   noAdjacentSpaces (trim (collapseSpace s)) \<and>
   trim (trim (collapseSpace s)) = trim (collapseSpace s)"
  using collapseSpace_set [of _ s] set_trim [of "collapseSpace s"]
    trim_noAdjacent [OF collapseSpace_noAdjacent [of s]] trim_idem [of "collapseSpace s"]
  by blast

lemma primaryText_tidy: "\<exists>s. primaryText t = trim (collapseSpace s)"
  unfolding primaryText_def normalise_def Let_def by (rule exI) (rule refl)

lemma extractTextFallback_tidy: "\<exists>s. extractTextFallback t = trim (collapseSpace s)"
  unfolding extractTextFallback_def by (rule exI) (rule refl)

lemma extractText_tidy: "\<exists>s. extractText t = trim (collapseSpace s)"
  using primaryText_tidy [of t] extractTextFallback_tidy [of t]
  by (auto simp: extractText_def Let_def)

lemma extractText_no_control: "c \<in> set (extractText t) \<Longrightarrow> is_space c \<Longrightarrow> c = 32"
  using extractText_tidy [of t] tidy_text by metis

text \<open>
  C9. For every input tree, the string returned by \<open>extractText\<close> contains no newline
  and no tab: the only white-space code unit in it is the space, no two of them are
  adjacent, and trimming the result changes nothing (no leading or trailing white
  space).
\<close>

theorem extractText_whitespace:
  "9 \<notin> set (extractText t) \<and> 10 \<notin> set (extractText t) \<and>
   (\<forall>c \<in> set (extractText t). is_space c \<longrightarrow> c = 32) \<and>
   noAdjacentSpaces (extractText t) \<and>
   trim (extractText t) = extractText t"
proof -
  obtain s where s: "extractText t = trim (collapseSpace s)"
    using extractText_tidy by blast
  have sp: "\<forall>c \<in> set (extractText t). is_space c \<longrightarrow> c = 32"
    using tidy_text [of s] s by simp
  have "is_space 9" and "is_space 10"
    by (simp_all add: is_space_def)
  with sp have "9 \<notin> set (extractText t)" and "10 \<notin> set (extractText t)"
    by fastforce+
  then show ?thesis
    using sp tidy_text [of s] s by simp
qed

theorem extractText_whitespace_witness:
  "extractText (Obj [(js ''w:p'', Arr [Obj [(js ''w:t'', Str (js ''Tabs and''))],
                                        Obj [(js ''w:tab'', Str (js ''x''))],
                                        Obj [(js ''w:br'', Str (js ''x''))],
                                        Obj [(js ''w:t'', Str (js ''breaks''))]])])
     = js ''Tabs and breaks'' \<and>
   9 \<notin> set (js ''Tabs and breaks'') \<and> 10 \<notin> set (js ''Tabs and breaks'') \<and>
   noAdjacentSpaces (js ''Tabs and breaks'') \<and>
   trim (js ''Tabs and breaks'') = js ''Tabs and breaks''"
proof -
  let ?t = "Obj [(js ''w:p'', Arr [Obj [(js ''w:t'', Str (js ''Tabs and''))],
                                   Obj [(js ''w:tab'', Str (js ''x''))],
                                   Obj [(js ''w:br'', Str (js ''x''))],
                                   Obj [(js ''w:t'', Str (js ''breaks''))]])]"
  have e: "extractText ?t = js ''Tabs and breaks''"
    by (simp add: evaluation)
  show ?thesis
    using extractText_whitespace [of ?t] unfolding e by simp
qed

section \<open>The fallback scan\<close>

lemma fold_collect:
  "(\<And>x a. x \<in> set xs \<Longrightarrow> f x a = a @ g x) \<Longrightarrow> fold f xs acc = acc @ concat (map g xs)"
  by (induction xs arbitrary: acc) simp_all

lemma keptLeaves_Arr: "keptLeaves (Arr xs) = concat (map keptLeaves xs)"
  by (simp add: keptLeaves_def [abs_def] map_concat filter_concat comp_def)

lemma keptLeaves_Obj: "keptLeaves (Obj kvs) = concat (map keptLeaves (map snd kvs))"
  by (simp add: keptLeaves_def [abs_def] map_concat filter_concat comp_def)

lemma findText_leaves: "findText t acc = acc @ keptLeaves t"
proof (induction t acc rule: findText.induct)
  case (1 parts)
  then show ?case by (simp add: keptLeaves_def)
next
  case (2 s parts)
  then show ?case by (simp add: keptLeaves_def)
next
  case (3 xs parts)
  then have "fold findText xs parts = parts @ concat (map keptLeaves xs)"
    by (intro fold_collect)
  then show ?case by (simp add: keptLeaves_Arr)
next
  case (4 kvs parts)
  then have "fold findText (map snd kvs) parts = parts @ concat (map keptLeaves (map snd kvs))"
    by (intro fold_collect)
  then show ?case by (simp only: keptLeaves_Obj findText.simps)
qed

lemma extractText_cases:
  "extractText t =
     (if length (primaryText t) < 10 \<and> length (primaryText t) < length (extractTextFallback t)
      then extractTextFallback t else primaryText t)"
  by (auto simp: extractText_def Let_def)

text \<open>
  C4. The fallback scan collects every string leaf that is not empty once trimmed and
  holds no namespace URI, drops the tokens of length at most 2 and the purely numeric
  ones, joins the rest with single spaces and collapses white space. When the primary
  result has fewer than 10 code units, the final result is the fallback output if that
  is strictly longer than the primary result, and the primary result otherwise; a
  primary result of 10 code units or more is never replaced.
\<close>

theorem extractText_fallback_policy:
  "extractTextFallback t =
     trim (collapseSpace (join [32]
       (filter (\<lambda>tok. 2 < length tok \<and> \<not> allDigits tok) (keptLeaves t)))) \<and>
   (length (primaryText t) < 10 \<and> length (primaryText t) < length (extractTextFallback t)
      \<longrightarrow> extractText t = extractTextFallback t) \<and>
   (length (primaryText t) < 10 \<and> \<not> length (primaryText t) < length (extractTextFallback t)
      \<longrightarrow> extractText t = primaryText t) \<and>
   (10 \<le> length (primaryText t) \<longrightarrow> extractText t = primaryText t)"
proof -
  have scan: "findText t [] = keptLeaves t"
    using findText_leaves [of t "[]"] by simp
  show ?thesis
    unfolding extractText_cases [of t] by (simp add: extractTextFallback_def scan)
qed

theorem extractText_fallback_policy_witness:
  "primaryText (Obj [(js ''w:sectPr'', Obj [(js ''w:footerReference'', Str (js ''Quarterly figures''))]),
                     (js ''w:count'', Str (js ''12''))]) = js ''12'' \<and>
   extractTextFallback (Obj [(js ''w:sectPr'', Obj [(js ''w:footerReference'', Str (js ''Quarterly figures''))]),
                             (js ''w:count'', Str (js ''12''))]) = js ''Quarterly figures'' \<and>
   extractText (Obj [(js ''w:sectPr'', Obj [(js ''w:footerReference'', Str (js ''Quarterly figures''))]),
                     (js ''w:count'', Str (js ''12''))]) = js ''Quarterly figures'' \<and>
   primaryText (Obj [(js ''w:t'', Str (js ''Hello'')), (js ''w:rsid'', Str (js ''77''))]) = js ''Hello'' \<and>
   extractTextFallback (Obj [(js ''w:t'', Str (js ''Hello'')), (js ''w:rsid'', Str (js ''77''))]) = js ''Hello'' \<and>
   extractText (Obj [(js ''w:t'', Str (js ''Hello'')), (js ''w:rsid'', Str (js ''77''))]) = js ''Hello'' \<and>
   primaryText (Obj [(js ''w:t'', Str (js ''Hello world'')), (js ''w:lang'', Str (js ''en-GB English''))])
     = js ''Hello world'' \<and>
   extractTextFallback (Obj [(js ''w:t'', Str (js ''Hello world'')), (js ''w:lang'', Str (js ''en-GB English''))])
     = js ''Hello world en-GB English'' \<and>
   extractText (Obj [(js ''w:t'', Str (js ''Hello world'')), (js ''w:lang'', Str (js ''en-GB English''))])
     = js ''Hello world''"
proof -
  let ?t = "Obj [(js ''w:sectPr'', Obj [(js ''w:footerReference'', Str (js ''Quarterly figures''))]),
                 (js ''w:count'', Str (js ''12''))]"
  let ?u = "Obj [(js ''w:t'', Str (js ''Hello'')), (js ''w:rsid'', Str (js ''77''))]"
  let ?v = "Obj [(js ''w:t'', Str (js ''Hello world'')), (js ''w:lang'', Str (js ''en-GB English''))]"
  have pt: "primaryText ?t = js ''12''"
    by (simp add: evaluation)
  have ft: "extractTextFallback ?t = js ''Quarterly figures''"
    by (simp add: evaluation)
  have pu: "primaryText ?u = js ''Hello''"
    by (simp add: evaluation)
  have fu: "extractTextFallback ?u = js ''Hello''"
    by (simp add: evaluation)
  have pv: "primaryText ?v = js ''Hello world''"
    by (simp add: evaluation)
  have fv: "extractTextFallback ?v = js ''Hello world en-GB English''"
    by (simp add: evaluation)
  have "extractText ?t = extractTextFallback ?t"
    using extractText_fallback_policy [of ?t] unfolding pt ft by simp
  moreover have "extractText ?u = primaryText ?u"
    using extractText_fallback_policy [of ?u] unfolding pu fu by simp
  moreover have "extractText ?v = primaryText ?v"
    using extractText_fallback_policy [of ?v] unfolding pv by simp
  ultimately show ?thesis
    using pt ft pu fu pv fv by (simp only:)
qed

section \<open>Property subtrees and the primary walk\<close>

lemma truthy_replaceExcluded: "truthy (replaceExcluded g v) = truthy v"
  by (cases v) simp_all

lemma map_of_map_value:
  "map_of (map (\<lambda>kv. (fst kv, h (fst kv) (snd kv))) kvs) k = map_option (h k) (map_of kvs k)"
  by (induction kvs) auto

lemma included_excludedTag: "included k \<longleftrightarrow> \<not> excludedTag k \<and> k \<noteq> js ''w:t''"
  by (auto simp: included_def excludedTag_def)

lemma child_replaceExcluded_literal:
  "child (map (\<lambda>kv. (fst kv,
                      if fst kv = js ''w:t'' then snd kv
                      else if excludedTag (fst kv) then g (fst kv) (snd kv)
                      else replaceExcluded g (snd kv))) kvs) (js ''w:t'')
   = child kvs (js ''w:t'')"
  using map_of_map_value
    [of "\<lambda>k v. if k = js ''w:t'' then v else if excludedTag k then g k v else replaceExcluded g v"
        kvs "js ''w:t''"]
  by (simp add: child_def split: option.splits)

lemma child_replaceExcluded:
  "included k \<Longrightarrow>
   child (map (\<lambda>kv. (fst kv,
                      if fst kv = js ''w:t'' then snd kv
                      else if excludedTag (fst kv) then g (fst kv) (snd kv)
                      else replaceExcluded g (snd kv))) kvs) k
   = map_option (replaceExcluded g) (child kvs k)"
  using map_of_map_value
    [of "\<lambda>k v. if k = js ''w:t'' then v else if excludedTag k then g k v else replaceExcluded g v"
        kvs k]
  by (simp add: child_def included_excludedTag truthy_replaceExcluded split: option.splits)

lemma structural_included:
  "included (js ''w:p'')" "included (js ''w:r'')" "included (js ''w:tab'')"
  "included (js ''w:br'')" "included (js ''w:document'')" "included (js ''w:body'')"
  by (simp_all add: included_def)

lemma fold_entries_replaceExcluded:
  "(\<And>k v ps. (k, v) \<in> set kvs \<Longrightarrow> included k \<Longrightarrow> W (replaceExcluded g v) ps = W v ps) \<Longrightarrow>
   fold (\<lambda>(key, v) ps. if included key then W v ps else ps)
     (map (\<lambda>kv. (fst kv,
                   if fst kv = js ''w:t'' then snd kv
                   else if excludedTag (fst kv) then g (fst kv) (snd kv)
                   else replaceExcluded g (snd kv))) kvs) parts
   = fold (\<lambda>(key, v) ps. if included key then W v ps else ps) kvs parts"
proof (induction kvs arbitrary: parts)
  case Nil
  then show ?case by simp
next
  case (Cons kv kvs)
  obtain k v where kv: "kv = (k, v)" by (cases kv)
  have step: "included k \<Longrightarrow> W (replaceExcluded g v) parts = W v parts"
    using Cons.prems [of k v parts] kv by simp
  have rest: "fold (\<lambda>(key, v) ps. if included key then W v ps else ps)
     (map (\<lambda>kv. (fst kv,
                   if fst kv = js ''w:t'' then snd kv
                   else if excludedTag (fst kv) then g (fst kv) (snd kv)
                   else replaceExcluded g (snd kv))) kvs) ps
   = fold (\<lambda>(key, v) ps. if included key then W v ps else ps) kvs ps" for ps
    by (rule Cons.IH) (rule Cons.prems, simp_all)
  show ?case
    using step rest by (simp add: kv included_excludedTag)
qed

lemma walk_replaceExcluded:
  "extractTextFromElement (replaceExcluded g t) parts = extractTextFromElement t parts"
proof (induction t parts rule: extractTextFromElement.induct)
  case (1 parts)
  then show ?case by simp
next
  case (2 s parts)
  then show ?case by simp
next
  case (3 xs parts)
  have "set zs \<subseteq> set xs \<Longrightarrow>
      fold extractTextFromElement (map (replaceExcluded g) zs) ps = fold extractTextFromElement zs ps"
    for zs ps
    by (induction zs arbitrary: ps) (simp_all add: 3)
  then show ?case by simp
next
  case (4 kvs parts)
  let ?kvs' = "map (\<lambda>kv. (fst kv,
                      if fst kv = js ''w:t'' then snd kv
                      else if excludedTag (fst kv) then g (fst kv) (snd kv)
                      else replaceExcluded g (snd kv))) kvs"
  note c = child_replaceExcluded_literal [of g kvs] structural_included [THEN child_replaceExcluded, of g kvs]
  show ?case
  proof (cases "child kvs (js ''w:t'')")
    case (Some wt)
    then show ?thesis by (simp only: replaceExcluded.simps extractTextFromElement.simps c option.case)
  next
    case n1: None
    show ?thesis
    proof (cases "child kvs (js ''w:p'')")
      case (Some p)
      then show ?thesis
        using "4.IH"(5) [OF n1 Some]
        by (simp only: replaceExcluded.simps extractTextFromElement.simps c n1 option.case option.map)
    next
      case n2: None
      show ?thesis
      proof (cases "child kvs (js ''w:r'')")
        case (Some r)
        then show ?thesis
          using "4.IH"(4) [OF n1 n2 Some]
          by (simp only: replaceExcluded.simps extractTextFromElement.simps c n1 n2 option.case option.map)
      next
        case n3: None
        show ?thesis
        proof (cases "child kvs (js ''w:tab'')")
          case (Some r)
          then show ?thesis
            by (simp only: replaceExcluded.simps extractTextFromElement.simps c n1 n2 n3 option.case option.map)
        next
          case n4: None
          show ?thesis
          proof (cases "child kvs (js ''w:br'')")
            case (Some r)
            then show ?thesis
              by (simp only: replaceExcluded.simps extractTextFromElement.simps c n1 n2 n3 n4 option.case option.map)
          next
            case n5: None
            show ?thesis
            proof (cases "child kvs (js ''w:document'')")
              case (Some d)
              then show ?thesis
                using "4.IH"(3) [OF n1 n2 n3 n4 n5 Some]
                by (simp only: replaceExcluded.simps extractTextFromElement.simps c n1 n2 n3 n4 n5 option.case option.map)
            next
              case n6: None
              show ?thesis
              proof (cases "child kvs (js ''w:body'')")
                case (Some b)
                then show ?thesis
                  using "4.IH"(2) [OF n1 n2 n3 n4 n5 n6 Some]
                  by (simp only: replaceExcluded.simps extractTextFromElement.simps c n1 n2 n3 n4 n5 n6 option.case option.map)
              next
                case n7: None
                have "fold (\<lambda>(key, v) ps. if included key then extractTextFromElement v ps else ps) ?kvs' parts
                    = fold (\<lambda>(key, v) ps. if included key then extractTextFromElement v ps else ps) kvs parts"
                  by (rule fold_entries_replaceExcluded) (rule "4.IH"(1) [OF n1 n2 n3 n4 n5 n6 n7], auto)
                then show ?thesis
                  by (simp only: replaceExcluded.simps extractTextFromElement.simps c n1 n2 n3 n4 n5 n6 n7 option.case option.map)
              qed
            qed
          qed
        qed
      qed
    qed
  qed
qed

text \<open>
  C5, as the code has it. The generic recursion step never enters a child whose tag is
  outside the markup namespace or contains \<open>Pr\<close>, \<open>Style\<close>, \<open>Properties\<close>, \<open>Fonts\<close>
  or \<open>Settings\<close>, and the test is made anew at every level: whatever stands under such
  a child, anywhere outside the value of a literal-text tag, leaves the fragments of the
  primary walk and the primary result unchanged, and so the extracted text whenever the
  primary result has 10 code units or more. (With a shorter primary result the fallback
  scan runs, which looks at no tag name.)
\<close>

theorem property_subtrees_ignored:
  "extractTextFromElement (replaceExcluded g t) parts = extractTextFromElement t parts \<and>
   primaryText (replaceExcluded g t) = primaryText t \<and>
   (10 \<le> length (primaryText t) \<longrightarrow> extractText (replaceExcluded g t) = extractText t)"
proof -
  have w: "extractTextFromElement (replaceExcluded g t) ps = extractTextFromElement t ps" for ps
    by (rule walk_replaceExcluded)
  then have p: "primaryText (replaceExcluded g t) = primaryText t"
    by (simp add: primaryText_def)
  have "extractText (replaceExcluded g t) = extractText t" if "10 \<le> length (primaryText t)"
    using that p by (simp add: extractText_cases)
  with w p show ?thesis by blast
qed

theorem property_subtrees_ignored_witness:
  "replaceExcluded (\<lambda>k v. Str (js ''Replaced''))
     (Obj [(js ''w:sectPr'', Str (js ''Hidden property'')),
           (js ''w:sdt'', Obj [(js ''w:rStyle'', Str (js ''Emphasis'')),
                               (js ''w:t'', Str (js ''Visible text here''))])])
   = Obj [(js ''w:sectPr'', Str (js ''Replaced'')),
          (js ''w:sdt'', Obj [(js ''w:rStyle'', Str (js ''Replaced'')),
                              (js ''w:t'', Str (js ''Visible text here''))])] \<and>
   extractText (Obj [(js ''w:sectPr'', Str (js ''Hidden property'')),
                     (js ''w:sdt'', Obj [(js ''w:rStyle'', Str (js ''Emphasis'')),
                                         (js ''w:t'', Str (js ''Visible text here''))])])
   = js ''Visible text here'' \<and>
   extractText (Obj [(js ''w:sectPr'', Str (js ''Replaced'')),
                     (js ''w:sdt'', Obj [(js ''w:rStyle'', Str (js ''Replaced'')),
                                         (js ''w:t'', Str (js ''Visible text here''))])])
   = js ''Visible text here''"
proof -
  let ?t = "Obj [(js ''w:sectPr'', Str (js ''Hidden property'')),
                 (js ''w:sdt'', Obj [(js ''w:rStyle'', Str (js ''Emphasis'')),
                                     (js ''w:t'', Str (js ''Visible text here''))])]"
  let ?g = "\<lambda>k v. Str (js ''Replaced'')"
  have r: "replaceExcluded ?g ?t
             = Obj [(js ''w:sectPr'', Str (js ''Replaced'')),
                    (js ''w:sdt'', Obj [(js ''w:rStyle'', Str (js ''Replaced'')),
                                        (js ''w:t'', Str (js ''Visible text here''))])]"
    by (simp add: excludedTag_def)
  have p: "primaryText ?t = js ''Visible text here''"
    by (simp add: evaluation)
  have e: "extractText ?t = js ''Visible text here''"
    unfolding extractText_cases [of ?t] p by simp
  have "10 \<le> length (primaryText ?t)"
    unfolding p by simp
  then have "extractText (replaceExcluded ?g ?t) = extractText ?t"
    using property_subtrees_ignored [of ?g ?t] by blast
  then show ?thesis
    unfolding r e by (simp only:)
qed

theorem property_text_in_output_counterexample:
  "excludedTag (js ''w:rPr'') \<and>
   extractTextFromElement (Obj [(js ''w:rPr'', Str (js ''Some property text''))]) [] = [] \<and>
   extractText (Obj [(js ''w:rPr'', Str (js ''Some property text''))]) = js ''Some property text''"
  by (simp add: evaluation excludedTag_def)

section \<open>The scenarios of the specification\<close>

text \<open>
  C1. The document part with two paragraphs, as the XML parser gives it (the repeated
  tag as one key holding the sequence of both paragraphs): the walk collects the two
  fragments with no paragraph break between them, and the result is \<open>First Second\<close>,
  the fragments joined by one space. No tree at all is extracted to the text with the
  paragraph break, \<open>First\<close>, two newlines, \<open>Second\<close>: the last replacement turns every
  newline into a space.
\<close>

theorem two_paragraphs_extracted:
  "extractTextFromElement
     (Obj [(js ''w:body'',
            Obj [(js ''w:p'', Arr [Obj [(js ''w:r'', Obj [(js ''w:t'', Str (js ''First''))])],
                                   Obj [(js ''w:r'', Obj [(js ''w:t'', Str (js ''Second''))])]])])]) []
   = [js ''First'', js ''Second''] \<and>
   extractText
     (Obj [(js ''w:body'',
            Obj [(js ''w:p'', Arr [Obj [(js ''w:r'', Obj [(js ''w:t'', Str (js ''First''))])],
                                   Obj [(js ''w:r'', Obj [(js ''w:t'', Str (js ''Second''))])]])])])
   = js ''First Second'' \<and>
   (\<forall>t. extractText t \<noteq> js ''First'' @ [10, 10] @ js ''Second'')"
proof -
  have "extractText t \<noteq> js ''First'' @ [10, 10] @ js ''Second''" for t
  proof
    assume "extractText t = js ''First'' @ [10, 10] @ js ''Second''"
    then have "10 \<in> set (extractText t)" by simp
    moreover have "is_space 10" by (simp add: is_space_def)
    ultimately show False using extractText_no_control [of 10 t] by simp
  qed
  then show ?thesis by (simp add: evaluation)
qed

text \<open>
  C2. A string leaf reached by the walk itself (not as the value of a literal-text tag)
  is dropped only when it contains \<open>http://schemas.microsoft.com\<close>: the namespace URI of
  the markup itself, which contains \<open>http://schemas\<close>, is extracted as text.
\<close>

theorem namespace_uri_extracted:
  "includesStr (js ''http://schemas.openxmlformats.org/wordprocessingml/2006/main'') (js ''http://schemas'') \<and>
   extractText (Obj [(js ''w:instrText'', Str (js ''http://schemas.openxmlformats.org/wordprocessingml/2006/main''))])
   = js ''http://schemas.openxmlformats.org/wordprocessingml/2006/main''"
  by (simp add: evaluation)

section \<open>Metadata\<close>

lemma extractMetadata_app:
  assumes core: "case part docxContent (js ''docProps/core.xml'') of
                   None \<Rightarrow> True
                 | Some coreProps \<Rightarrow>
                     (case xmlParser coreProps of Inl e \<Rightarrow> False | Inr p \<Rightarrow> p \<noteq> Null)"
    and app: "part docxContent (js ''docProps/app.xml'') = Some appProps"
    and parsed: "xmlParser appProps = Inr parsed" "parsed \<noteq> Null"
  shows "\<exists>m. fst (extractMetadata xmlParser mkDate docxContent) = appProperties parsed m \<and>
             pages m = None \<and> words m = None \<and> characters m = None"
proof (cases "part docxContent (js ''docProps/core.xml'')")
  case None
  then show ?thesis
    using app parsed
    by (cases parsed) (auto simp: extractMetadata_def emptyMetadata_def intro!: exI [of _ emptyMetadata])
next
  case (Some coreProps)
  with core obtain p where p: "xmlParser coreProps = Inr p" "p \<noteq> Null"
    by (auto split: sum.splits)
  have "pages (coreProperties mkDate p emptyMetadata) = None \<and>
        words (coreProperties mkDate p emptyMetadata) = None \<and>
        characters (coreProperties mkDate p emptyMetadata) = None"
    by (simp add: coreProperties_def emptyMetadata_def Let_def split: option.splits)
  moreover have "fst (extractMetadata xmlParser mkDate docxContent)
                   = appProperties parsed (coreProperties mkDate p emptyMetadata)"
    using Some p app parsed
    by (cases p; cases parsed) (simp_all add: extractMetadata_def)
  ultimately show ?thesis by blast
qed

lemma appProperties_fields:
  "pages m = None \<Longrightarrow> words m = None \<Longrightarrow> characters m = None \<Longrightarrow>
   pages (appProperties parsed m)
     = map_option (\<lambda>v. parseInt (toStringNode v))
         (getProp (orEmpty (member parsed (js ''Properties''))) (js ''Pages'')) \<and>
   words (appProperties parsed m)
     = map_option (\<lambda>v. parseInt (toStringNode v))
         (getProp (orEmpty (member parsed (js ''Properties''))) (js ''Words'')) \<and>
   characters (appProperties parsed m)
     = map_option (\<lambda>v. parseInt (toStringNode v))
         (getProp (orEmpty (member parsed (js ''Properties''))) (js ''Characters''))"
  by (simp add: appProperties_def Let_def split: option.splits)

text \<open>
  C3, as the code has it. When the application-properties part is read (the core stage
  did not throw, the part is there and parses), each of \<open>pages\<close>, \<open>words\<close> and
  \<open>characters\<close> is present exactly when the field \<open>Pages\<close>, \<open>Words\<close> or \<open>Characters\<close>
  is there and truthy, and then holds what \<open>parseInt\<close> makes of the value: \<open>NaN\<close> for a
  value that does not look numeric, not an absent field.
\<close>

theorem app_fields_stored:
  assumes "case part docxContent (js ''docProps/core.xml'') of
             None \<Rightarrow> True
           | Some coreProps \<Rightarrow>
               (case xmlParser coreProps of Inl e \<Rightarrow> False | Inr p \<Rightarrow> p \<noteq> Null)"
    and "part docxContent (js ''docProps/app.xml'') = Some appProps"
    and "xmlParser appProps = Inr parsed" and "parsed \<noteq> Null"
  shows "pages (fst (extractMetadata xmlParser mkDate docxContent))
           = map_option (\<lambda>v. parseInt (toStringNode v))
               (getProp (orEmpty (member parsed (js ''Properties''))) (js ''Pages'')) \<and>
         words (fst (extractMetadata xmlParser mkDate docxContent))
           = map_option (\<lambda>v. parseInt (toStringNode v))
               (getProp (orEmpty (member parsed (js ''Properties''))) (js ''Words'')) \<and>
         characters (fst (extractMetadata xmlParser mkDate docxContent))
           = map_option (\<lambda>v. parseInt (toStringNode v))
               (getProp (orEmpty (member parsed (js ''Properties''))) (js ''Characters''))"
proof -
  obtain m where m: "fst (extractMetadata xmlParser mkDate docxContent) = appProperties parsed m"
      "pages m = None" "words m = None" "characters m = None"
    using extractMetadata_app [OF assms] by blast
  show ?thesis
    unfolding m(1) using m(2-4) by (rule appProperties_fields)
qed

lemmas metadata_evaluation =
  part_def constantParser_def orEmpty_def child_def parseInt_def parseDigits_def digitValue_def
  trimStart_def is_space_def is_digit_def negate_def

theorem app_fields_stored_witness:
  "pages (fst (extractMetadata
                 (constantParser (Obj [(js ''Properties'',
                                        Obj [(js ''Pages'', Str (js ''twelve'')),
                                             (js ''Words'', Str (js ''340''))])]))
                 unitOf [(js ''docProps/app.xml'', js ''<Properties/>'')])) = Some NaN \<and>
   words (fst (extractMetadata
                 (constantParser (Obj [(js ''Properties'',
                                        Obj [(js ''Pages'', Str (js ''twelve'')),
                                             (js ''Words'', Str (js ''340''))])]))
                 unitOf [(js ''docProps/app.xml'', js ''<Properties/>'')])) = Some (Num 340) \<and>
   characters (fst (extractMetadata
                 (constantParser (Obj [(js ''Properties'',
                                        Obj [(js ''Pages'', Str (js ''twelve'')),
                                             (js ''Words'', Str (js ''340''))])]))
                 unitOf [(js ''docProps/app.xml'', js ''<Properties/>'')])) = None"
proof -
  let ?parsed = "Obj [(js ''Properties'',
                       Obj [(js ''Pages'', Str (js ''twelve'')), (js ''Words'', Str (js ''340''))])]"
  let ?docx = "[(js ''docProps/app.xml'', js ''<Properties/>'')]"
  have a: "case part ?docx (js ''docProps/core.xml'') of
             None \<Rightarrow> True
           | Some coreProps \<Rightarrow>
               (case constantParser ?parsed coreProps of Inl e \<Rightarrow> False | Inr p \<Rightarrow> p \<noteq> Null)"
    by (simp add: part_def)
  have b: "part ?docx (js ''docProps/app.xml'') = Some (js ''<Properties/>'')"
    by (simp add: part_def)
  have c: "constantParser ?parsed (js ''<Properties/>'') = Inr ?parsed"
    by (simp add: constantParser_def)
  have d: "?parsed \<noteq> Null"
    by simp
  have r1: "map_option (\<lambda>v. parseInt (toStringNode v))
              (getProp (orEmpty (member ?parsed (js ''Properties''))) (js ''Pages'')) = Some NaN"
    by (simp add: metadata_evaluation)
  have r2: "map_option (\<lambda>v. parseInt (toStringNode v))
              (getProp (orEmpty (member ?parsed (js ''Properties''))) (js ''Words'')) = Some (Num 340)"
    by (simp add: metadata_evaluation)
  have r3: "map_option (\<lambda>v. parseInt (toStringNode v))
              (getProp (orEmpty (member ?parsed (js ''Properties''))) (js ''Characters'')) = None"
    by (simp add: metadata_evaluation)
  show ?thesis
    using app_fields_stored [OF a b c d, of unitOf] unfolding r1 r2 r3 .
qed

theorem non_numeric_pages_counterexample:
  "pages (fst (extractMetadata
                 (constantParser (Obj [(js ''Properties'', Obj [(js ''Pages'', Str (js ''twelve''))])]))
                 unitOf [(js ''docProps/app.xml'', js ''<Properties/>'')])) = Some NaN"
  by (simp add: extractMetadata_def appProperties_def emptyMetadata_def metadata_evaluation)

section \<open>The result of \<open>parseDocument\<close>\<close>

lemma extractStages_result:
  "success (fst (extractStages c config docxContent parsedDoc result)) \<and>
   content (fst (extractStages c config docxContent parsedDoc result)) = Some (extractText parsedDoc) \<and>
   errors (fst (extractStages c config docxContent parsedDoc result)) = errors result"
  by (simp add: extractStages_def Let_def split: prod.splits)

lemma caught_result:
  "success (caught e result) = success result \<and> content (caught e result) = content result"
  by (simp add: caught_def)

lemma readStages_result:
  assumes "\<not> success result"
  shows "success (fst (readStages c config filePath result)) \<longrightarrow>
           content (fst (readStages c config filePath result)) \<noteq> None \<and>
           errors (fst (readStages c config filePath result)) = errors result"
proof (cases "extractDocxContent c filePath")
  case (Inl e)
  then show ?thesis using assms by (simp add: readStages_def caught_result)
next
  case (Inr docxContent)
  show ?thesis
  proof (cases "part docxContent (js ''word/document.xml'')")
    case None
    then show ?thesis using assms Inr by (simp add: readStages_def)
  next
    case (Some documentXml)
    show ?thesis
    proof (cases "parseString c documentXml")
      case (Inl e)
      then show ?thesis using assms Inr Some by (simp add: readStages_def caught_result)
    next
      case parsed: (Inr parsedDoc)
      have "fst (readStages c config filePath result)
              = fst (extractStages c config docxContent parsedDoc result)"
        using Inr Some parsed by (simp add: readStages_def split: prod.splits)
      then show ?thesis
        using extractStages_result [of c config docxContent parsedDoc result] by simp
    qed
  qed
qed

lemma initialResult_fields:
  "\<not> success initialResult" "errors initialResult = []" "content initialResult = None"
  by (simp_all add: initialResult_def)

lemma parseDocument_result:
  "success (fst (parseDocument c config filePath)) \<longrightarrow>
     content (fst (parseDocument c config filePath)) \<noteq> None \<and>
     errors (fst (parseDocument c config filePath)) = []"
proof -
  note r = readStages_result [OF initialResult_fields(1), of c config filePath]
  show ?thesis
  proof (cases "isTrue (config (js ''safetyChecks''))")
    case False
    then show ?thesis using r by (simp add: parseDocument_def initialResult_fields)
  next
    case True
    show ?thesis
    proof (cases "validateFile c filePath")
      case (Inl e)
      then show ?thesis using True by (simp add: parseDocument_def caught_result initialResult_fields)
    next
      case (Inr safetyResult)
      then show ?thesis
        using True r
        by (cases "readStages c config filePath initialResult")
           (auto simp: parseDocument_def initialResult_fields)
    qed
  qed
qed

lemmas orchestrator_evaluation =
  parseDocument_def readStages_def extractStages_def sampleCollaborators_def verdict_def
  containerOf_def constantParser_def isTrue_def defaultConfig_def part_def extractMetadata_def
  emptyMetadata_def initialResult_def scenarioA_def caught_def

text \<open>
  When the collaborators answer (a throw or a rejection of any of them included), the
  result record that \<open>parseDocument\<close> returns has its \<open>content\<close> if it has
  \<open>success\<close>, and has not \<open>success\<close> if it has errors.
\<close>

theorem parseDocument_invariant:
  "(success (fst (parseDocument c config filePath)) \<longrightarrow>
      content (fst (parseDocument c config filePath)) \<noteq> None) \<and>
   (errors (fst (parseDocument c config filePath)) \<noteq> [] \<longrightarrow>
      \<not> success (fst (parseDocument c config filePath)))"
  using parseDocument_result [of c config filePath] by blast

theorem parseDocument_invariant_witness:
  "success (fst (parseDocument (sampleCollaborators True []) defaultConfig (js ''report.docx''))) \<and>
   content (fst (parseDocument (sampleCollaborators True []) defaultConfig (js ''report.docx''))) \<noteq> None \<and>
   errors (fst (parseDocument (sampleCollaborators False [js ''Unsupported file extension''])
                  defaultConfig (js ''report.pdf''))) \<noteq> [] \<and>
   \<not> success (fst (parseDocument (sampleCollaborators False [js ''Unsupported file extension''])
                     defaultConfig (js ''report.pdf'')))"
proof -
  have s: "success (fst (parseDocument (sampleCollaborators True []) defaultConfig (js ''report.docx'')))"
    by (simp add: orchestrator_evaluation)
  have e: "errors (fst (parseDocument (sampleCollaborators False [js ''Unsupported file extension''])
                          defaultConfig (js ''report.pdf''))) \<noteq> []"
    by (simp add: orchestrator_evaluation)
  show ?thesis
    using s e
      parseDocument_invariant [of "sampleCollaborators True []" defaultConfig "js ''report.docx''"]
      parseDocument_invariant [of "sampleCollaborators False [js ''Unsupported file extension'']"
        defaultConfig "js ''report.pdf''"]
    by blast
qed

lemma parseDocumentPromise_settled:
  "extractDocxContentPromise (yauzlOpen filePath) = Resolved docxContent \<Longrightarrow>
   parseDocumentPromise c yauzlOpen config filePath
     = Resolved (parseDocument (c\<lparr>extractDocxContent := \<lambda>_. Inr docxContent\<rparr>) config filePath)"
  "extractDocxContentPromise (yauzlOpen filePath) = Rejected err \<Longrightarrow>
   parseDocumentPromise c yauzlOpen config filePath
     = Resolved (parseDocument (c\<lparr>extractDocxContent := \<lambda>_. Inl err\<rparr>) config filePath)"
  by (auto simp: parseDocumentPromise_def readStagesPromise_def parseDocument_def Let_def
           split: sum.splits prod.splits)

lemma parseDocumentPromise_never_rejects:
  "parseDocumentPromise c yauzlOpen config filePath \<noteq> Rejected err"
  by (auto simp: parseDocumentPromise_def readStagesPromise_def Let_def
           split: sum.splits prod.splits promise.splits)

lemma parseDocumentPromise_resolved:
  assumes "parseDocumentPromise c yauzlOpen config filePath = Resolved (r, calls)"
  shows "(success r \<longrightarrow> content r \<noteq> None) \<and> (errors r \<noteq> [] \<longrightarrow> \<not> success r)"
proof (cases "extractDocxContentPromise (yauzlOpen filePath)")
  case (Resolved docxContent)
  then show ?thesis
    using assms parseDocumentPromise_settled(1)
        [where yauzlOpen = yauzlOpen and filePath = filePath and c = c and config = config, OF Resolved]
      parseDocument_result [of "c\<lparr>extractDocxContent := \<lambda>_. Inr docxContent\<rparr>" config filePath]
    by auto
next
  case (Rejected err)
  then show ?thesis
    using assms parseDocumentPromise_settled(2)
        [where yauzlOpen = yauzlOpen and filePath = filePath and c = c and config = config, OF Rejected]
      parseDocument_result [of "c\<lparr>extractDocxContent := \<lambda>_. Inl err\<rparr>" config filePath]
    by auto
next
  case (Unhandled err)
  then show ?thesis
    using assms
    by (auto simp: parseDocumentPromise_def readStagesPromise_def Let_def initialResult_def caught_def
             split: sum.splits if_splits)
qed

lemmas container_evaluation =
  parseDocumentPromise_def readStagesPromise_def extractDocxContentPromise_def zipOf_def
  sampleCollaborators_def verdict_def isTrue_def defaultConfig_def initialResult_def endsWith_def
  readStages_def caught_def errorMessage_def

text \<open>
  C6. The call does not return a result record for every input: when the read stream
  of an entry of the container emits \<open>error\<close> (the data of the document part does not
  inflate, say), no listener takes the event, the promise of \<open>extractDocxContent\<close> is
  never settled, and \<open>parseDocument\<close>, which awaits it, neither returns nor reaches its
  \<open>catch\<close>. The same error given to the callback of \<open>openReadStream\<close> is rejected
  and ends in a record with \<open>success = false\<close> and one error.
\<close>

theorem corrupt_entry_never_returns:
  "extractDocxContentPromise
     (Zipfile [Entry (js ''docProps/'') NoStream,
               Entry (js ''docProps/app.xml'') (Stream (EndsWith (js ''<Properties/>''))),
               Entry (js ''word/document.xml'') (Stream (FailsWith (Error (js ''unexpected end of file''))))])
     = Unhandled (Error (js ''unexpected end of file'')) \<and>
   parseDocumentPromise (sampleCollaborators True [])
     (zipOf [Entry (js ''docProps/'') NoStream,
             Entry (js ''docProps/app.xml'') (Stream (EndsWith (js ''<Properties/>''))),
             Entry (js ''word/document.xml'') (Stream (FailsWith (Error (js ''unexpected end of file''))))])
     defaultConfig (js ''report.docx'')
     = Unhandled (Error (js ''unexpected end of file'')) \<and>
   parseDocumentPromise (sampleCollaborators True [])
     (zipOf [Entry (js ''docProps/'') NoStream,
             Entry (js ''docProps/app.xml'') (Stream (EndsWith (js ''<Properties/>''))),
             Entry (js ''word/document.xml'') (StreamError (Error (js ''unexpected end of file'')))])
     defaultConfig (js ''report.docx'')
     = Resolved (initialResult\<lparr>errors := [js ''Parsing failed: unexpected end of file'']\<rparr>,
                 [ValidateFile (js ''report.docx''), OpenContainer (js ''report.docx'')])"
  by (simp add: container_evaluation)

text \<open>
  C7. With safety checks enabled and a validator that reports the file unsafe with the
  issues \<open>I\<close>, \<open>parseDocument\<close> returns the initial result with \<open>I\<close> as its errors: no
  success, no content, metadata or images, and the validator's is the only call made
  (the container is not opened, no XML is parsed, no extraction stage runs).
\<close>

theorem unsafe_file_halts:
  assumes "isTrue (config (js ''safetyChecks''))"
    and "validateFile c filePath = Inr safetyResult"
    and "\<not> isSafe safetyResult"
  shows "parseDocument c config filePath
           = (initialResult\<lparr>errors := issues safetyResult\<rparr>, [ValidateFile filePath]) \<and>
         \<not> success (fst (parseDocument c config filePath)) \<and>
         errors (fst (parseDocument c config filePath)) = issues safetyResult \<and>
         content (fst (parseDocument c config filePath)) = None \<and>
         metadata (fst (parseDocument c config filePath)) = None \<and>
         images (fst (parseDocument c config filePath)) = None \<and>
         snd (parseDocument c config filePath) = [ValidateFile filePath]"
  using assms by (simp add: parseDocument_def initialResult_def)

theorem unsafe_file_halts_witness:
  "errors (fst (parseDocument (sampleCollaborators False [js ''Unsupported file extension''])
                  defaultConfig (js ''report.pdf''))) = [js ''Unsupported file extension''] \<and>
   \<not> success (fst (parseDocument (sampleCollaborators False [js ''Unsupported file extension''])
                     defaultConfig (js ''report.pdf''))) \<and>
   snd (parseDocument (sampleCollaborators False [js ''Unsupported file extension''])
          defaultConfig (js ''report.pdf'')) = [ValidateFile (js ''report.pdf'')]"
proof -
  let ?c = "sampleCollaborators False [js ''Unsupported file extension'']"
  let ?r = "\<lparr>isSafe = False, issues = [js ''Unsupported file extension''], hash = [], fileSize = 0\<rparr>"
  have a: "isTrue (defaultConfig (js ''safetyChecks''))"
    by (simp add: isTrue_def defaultConfig_def)
  have b: "validateFile ?c (js ''report.pdf'') = Inr ?r"
    by (simp add: sampleCollaborators_def verdict_def)
  have c: "\<not> isSafe ?r"
    by simp
  have d: "issues ?r = [js ''Unsupported file extension'']"
    by simp
  show ?thesis
    using unsafe_file_halts [where config = defaultConfig and c = ?c and filePath = "js ''report.pdf''"
        and safetyResult = ?r, OF a b c]
    unfolding d by blast
qed

section \<open>The configuration returned by \<open>getConfig\<close>\<close>

lemma mutate_frame:
  "thisConfig (mutate r s mu) = thisConfig s \<and>
   length (store (mutate r s mu)) = length (store s) \<and>
   (a \<noteq> r \<longrightarrow> store (mutate r s mu) ! a = store s ! a)"
  by (simp add: mutate_def)

lemma mutations_frame:
  "thisConfig (foldl (mutate r) s ms) = thisConfig s \<and>
   length (store (foldl (mutate r) s ms)) = length (store s) \<and>
   (a \<noteq> r \<longrightarrow> store (foldl (mutate r) s ms) ! a = store s ! a)"
proof (induction ms arbitrary: s)
  case Nil
  then show ?case by simp
next
  case (Cons mu ms)
  show ?case
    using Cons.IH [of "mutate r s mu"] mutate_frame [of r s mu a] by simp
qed

lemma getConfig_copy:
  assumes "thisConfig s < length (store s)"
  shows "fst (getConfig s) = length (store s)"
    and "thisConfig (snd (getConfig s)) = thisConfig s"
    and "store (snd (getConfig s)) ! thisConfig s = store s ! thisConfig s"
    and "store (snd (getConfig s)) ! fst (getConfig s) = store s ! thisConfig s"
  using assms by (simp_all add: getConfig_def nth_append)

lemma parser_allocated:
  "thisConfig (construct st config) < length (store (construct st config))"
  "thisConfig (updateConfig newConfig s) < length (store (updateConfig newConfig s))"
  "thisConfig s < length (store s) \<Longrightarrow>
   thisConfig (snd (getConfig s)) < length (store (snd (getConfig s)))"
  by (simp_all add: construct_def updateConfig_def getConfig_def)

text \<open>
  C10. \<open>getConfig\<close> returns a fresh copy of the configuration: the address returned
  is not the one the parser holds, the object there equals the parser's configuration,
  and after any sequence of assignments and deletions made through the returned
  address the parser still holds the same address with the same configuration, so that
  \<open>parseDocument\<close> and \<open>convertToFormat\<close> called afterwards behave as they would have
  before. (In a state of the parser, \<open>this.config\<close> is an allocated address.)
\<close>

theorem getConfig_returns_copy:
  assumes "thisConfig s < length (store s)"
  shows "fst (getConfig s) \<noteq> thisConfig s \<and>
         store (snd (getConfig s)) ! fst (getConfig s) = currentConfig s \<and>
         thisConfig (foldl (mutate (fst (getConfig s))) (snd (getConfig s)) ms) = thisConfig s \<and>
         currentConfig (foldl (mutate (fst (getConfig s))) (snd (getConfig s)) ms) = currentConfig s \<and>
         parseDocumentOn (foldl (mutate (fst (getConfig s))) (snd (getConfig s)) ms) c filePath
           = parseDocumentOn s c filePath \<and>
         convertToFormatOn (foldl (mutate (fst (getConfig s))) (snd (getConfig s)) ms)
             toLowerCase jsonStringify txt format meta
           = convertToFormatOn s toLowerCase jsonStringify txt format meta"
proof -
  let ?r = "fst (getConfig s)"
  let ?s' = "snd (getConfig s)"
  let ?s'' = "foldl (mutate ?r) ?s' ms"
  note g = getConfig_copy [OF assms]
  have fresh: "thisConfig s \<noteq> ?r"
    using assms g(1) by simp
  have same: "thisConfig ?s'' = thisConfig s"
    using mutations_frame [of ?r ?s' ms] g(2) by simp
  have "store ?s'' ! thisConfig s = store ?s' ! thisConfig s"
    using mutations_frame [of ?r ?s' ms "thisConfig s"] fresh by blast
  then have cur: "currentConfig ?s'' = currentConfig s"
    using same g(3) by (simp add: currentConfig_def)
  show ?thesis
    using fresh same cur g(4)
    by (simp add: currentConfig_def parseDocumentOn_def convertToFormatOn_def)
qed

theorem getConfig_returns_copy_witness:
  "thisConfig (construct [] Map.empty) < length (store (construct [] Map.empty)) \<and>
   (store (foldl (mutate (fst (getConfig (construct [] Map.empty))))
             (snd (getConfig (construct [] Map.empty)))
             [Assign (js ''safetyChecks'') (Bool False), Delete (js ''includeMetadata'')])
      ! fst (getConfig (construct [] Map.empty))) (js ''safetyChecks'') = Some (Bool False) \<and>
   currentConfig (foldl (mutate (fst (getConfig (construct [] Map.empty))))
                    (snd (getConfig (construct [] Map.empty)))
                    [Assign (js ''safetyChecks'') (Bool False), Delete (js ''includeMetadata'')])
     (js ''safetyChecks'') = Some (Bool True)"
proof -
  let ?s = "construct [] Map.empty"
  let ?ms = "[Assign (js ''safetyChecks'') (Bool False), Delete (js ''includeMetadata'')]"
  have a: "thisConfig ?s < length (store ?s)"
    by (simp add: construct_def)
  have b: "(store (foldl (mutate (fst (getConfig ?s))) (snd (getConfig ?s)) ?ms) ! fst (getConfig ?s))
             (js ''safetyChecks'') = Some (Bool False)"
    by (simp add: construct_def getConfig_def mutate_def)
  have c: "currentConfig ?s (js ''safetyChecks'') = Some (Bool True)"
    by (simp add: construct_def currentConfig_def defaultConfig_def)
  have "currentConfig (foldl (mutate (fst (getConfig ?s))) (snd (getConfig ?s)) ?ms) = currentConfig ?s"
    using getConfig_returns_copy [OF a, of ?ms] by blast
  then show ?thesis
    using a b c by (simp only:)
qed

section \<open>Markdown rendering\<close>

lemma classes_disjoint:
  "is_upper c \<Longrightarrow> \<not> is_lower c" "is_upper c \<Longrightarrow> \<not> is_space c" "is_space c \<Longrightarrow> \<not> is_lower c"
  by (auto simp: is_upper_def is_lower_def is_space_def)

lemma headingLike_iff:
  "headingLike s \<longleftrightarrow>
     (\<exists>c ls ws d rest. s = c # ls @ ws @ d # rest \<and> is_upper c \<and> list_all is_lower ls \<and>
        list_all is_space ws \<and> is_upper d)"
proof
  assume h: "headingLike s"
  then obtain c cs where s: "s = c # cs" and c: "is_upper c"
    by (cases s) (auto simp: headingLike_def)
  from h s obtain d rest where d: "dropWhile is_space (dropWhile is_lower cs) = d # rest" "is_upper d"
    by (auto simp: headingLike_def split: list.splits)
  let ?ls = "takeWhile is_lower cs"
  let ?ws = "takeWhile is_space (dropWhile is_lower cs)"
  have "cs = ?ls @ ?ws @ d # rest"
    using d(1) by (metis takeWhile_dropWhile_id)
  moreover have "list_all is_lower ?ls" "list_all is_space ?ws"
    by (auto simp: list_all_iff dest: set_takeWhileD)
  ultimately show "\<exists>c ls ws d rest. s = c # ls @ ws @ d # rest \<and> is_upper c \<and> list_all is_lower ls \<and>
        list_all is_space ws \<and> is_upper d"
    using s c d(2) by blast
next
  assume "\<exists>c ls ws d rest. s = c # ls @ ws @ d # rest \<and> is_upper c \<and> list_all is_lower ls \<and>
        list_all is_space ws \<and> is_upper d"
  then obtain c ls ws d rest where s: "s = c # ls @ ws @ d # rest" and c: "is_upper c"
    and ls: "list_all is_lower ls" and ws: "list_all is_space ws" and d: "is_upper d"
    by blast
  have 1: "dropWhile is_lower (ls @ ws @ d # rest) = dropWhile is_lower (ws @ d # rest)"
    using ls by (simp add: list_all_iff dropWhile_append2)
  have 2: "dropWhile is_lower (ws @ d # rest) = ws @ d # rest"
    using ws d classes_disjoint by (cases ws) auto
  have 3: "dropWhile is_space (ws @ d # rest) = d # rest"
    using ws d classes_disjoint by (simp add: list_all_iff dropWhile_append2)
  show "headingLike s"
    using s c d 1 2 3 by (simp add: headingLike_def)
qed

lemma splitFrom_nonempty: "splitFrom prev piece s \<noteq> []"
  by (induction prev piece s rule: splitFrom.induct) auto

lemma splitFrom_breakFree:
  "breakFree prev xs \<Longrightarrow>
   splitFrom prev piece (xs @ ys) = splitFrom (if xs = [] then prev else Some (last xs)) (rev xs @ piece) ys"
  by (induction xs arbitrary: prev piece) auto

lemma splitFrom_single: "splitFrom prev piece s = [t] \<Longrightarrow> breakFree prev s"
proof (induction prev piece s rule: splitFrom.induct)
  case (1 prev piece)
  then show ?case by simp
next
  case (2 prev piece c cs)
  show ?case
  proof (cases "(case prev of Some p \<Rightarrow> is_terminator p | None \<Rightarrow> False) \<and> is_space c")
    case True
    with "2.prems" show ?thesis by (simp add: splitFrom_nonempty)
  next
    case False
    with 2 show ?thesis by simp
  qed
qed

lemma breakFree_prev:
  "\<not> is_terminator p \<Longrightarrow> breakFree (Some p) s = breakFree None s"
  by (cases s) simp_all

lemma splitFrom_whole: "breakFree prev s \<Longrightarrow> splitFrom prev piece s = [rev piece @ s]"
  using splitFrom_breakFree [of prev s piece "[]"] by simp

lemma space_not_terminator: "is_space c \<Longrightarrow> \<not> is_terminator c"
  by (auto simp: is_space_def is_terminator_def)

lemma split_two_sentences:
  assumes h: "splitSentences h = [h]" "h \<noteq> []" "is_terminator (last h)"
    and b: "splitSentences b = [b]" "b \<noteq> []" "\<not> is_space (hd b)"
  shows "splitSentences (h @ [32] @ b) = [h, b]"
proof -
  have fh: "breakFree None h" and fb: "breakFree None b"
    using h(1) b(1) by (auto simp: splitSentences_def dest: splitFrom_single)
  have sp: "is_space 32" by (simp add: is_space_def)
  have "splitFrom None [] (h @ 32 # b) = splitFrom (Some (last h)) (rev h) (32 # b)"
    using splitFrom_breakFree [OF fh, of "[]" "32 # b"] h(2) by simp
  also have "\<dots> = h # splitFrom (Some 32) [] b"
    using h(3) sp b(2,3) by (cases b) simp_all
  also have "splitFrom (Some 32) [] b = [b]"
    using splitFrom_whole [of "Some 32" b "[]"] breakFree_prev [OF space_not_terminator [OF sp], of b] fb
    by simp
  finally show ?thesis by (simp add: splitSentences_def)
qed

lemma trimEnd_append_spaces: "list_all is_space ws \<Longrightarrow> trimEnd (x @ ws) = trimEnd x"
proof -
  assume "list_all is_space ws"
  then have "\<And>c. c \<in> set (rev ws) \<Longrightarrow> is_space c"
    by (simp add: list_all_iff)
  then have "dropWhile is_space (rev ws @ rev x) = dropWhile is_space (rev x)"
    by (rule dropWhile_append2)
  then show ?thesis
    by (simp add: trimEnd_def)
qed

lemma trim_fixed:
  "x \<noteq> [] \<Longrightarrow> \<not> is_space (hd x) \<Longrightarrow> \<not> is_space (last x) \<Longrightarrow> list_all is_space ws \<Longrightarrow>
   trim (x @ ws) = x"
proof -
  assume a: "x \<noteq> []" "\<not> is_space (hd x)" "\<not> is_space (last x)" "list_all is_space ws"
  have "trimStart (x @ ws) = x @ ws"
    using a(1,2) by (cases x) (simp_all add: trimStart_def)
  then show ?thesis
    using a by (simp add: trim_def trimEnd_append_spaces trimEnd_id)
qed

lemma scenario_markdown:
  assumes h: "length h = 30" "headingLike h" "is_terminator (last h)" "splitSentences h = [h]"
    and b: "length b = 250" "splitSentences b = [b]" "trim b = b"
  shows "convertToMarkdown (h @ [32] @ b) None = js ''## '' @ h @ [10, 10] @ b"
proof -
  have hn: "h \<noteq> []" and bn: "b \<noteq> []"
    using h(1) b(1) by auto
  have "is_upper (hd h)"
    using h(2) by (cases h) (auto simp: headingLike_def)
  then have hh: "\<not> is_space (hd h)"
    by (rule classes_disjoint)
  have hl: "\<not> is_space (last h)"
    using h(3) space_not_terminator by blast
  have th: "trim h = h"
    using trim_fixed [OF hn hh hl, of "[]"] by simp
  have be: "\<not> is_space (hd b)" "\<not> is_space (last b)"
    using trim_ends [of b] b(3) bn by auto
  have tb: "trim (b @ [32]) = b"
    using trim_fixed [OF bn be, of "[32]"] by (simp add: is_space_def)
  have split: "splitSentences (h @ [32] @ b) = [h, b]"
    using h(4) hn h(3) b(2) bn be(1) by (rule split_two_sentences)
  have s1: "sentenceStep ([], []) h = (js ''## '' @ h @ [10, 10], [])"
    using th hn h(1,2) by (simp add: sentenceStep_def)
  have s2: "sentenceStep (m, []) b = (m @ b @ [10, 10], [])" for m
    using b(3) bn b(1) tb by (simp add: sentenceStep_def flushParagraph_def)
  have "hd (js ''## '' @ h @ [10, 10] @ b) = 35" "last (js ''## '' @ h @ [10, 10] @ b) = last b"
    using bn by simp_all
  then have fin: "trim ((js ''## '' @ h @ [10, 10] @ b) @ [10, 10]) = js ''## '' @ h @ [10, 10] @ b"
    using be(2) by (intro trim_fixed) (simp_all add: is_space_def)
  have t0: "trim [] = []"
    by (simp add: trim_def trimStart_def trimEnd_def)
  have "convertToMarkdown (h @ [32] @ b) None = trim ((js ''## '' @ h @ [10, 10] @ b) @ [10, 10])"
    unfolding convertToMarkdown_def markdownHeader_def split
    by (simp add: s1 s2 t0)
  then show ?thesis
    unfolding fin .
qed

text \<open>
  C8, as the code has it. A sentence (trimmed, not empty) is promoted to a \<open>## \<close>
  sub-heading exactly when it has fewer than 50 code units and begins with an uppercase
  letter, then any number of lowercase letters, then any white space, then an uppercase
  letter; the paragraph buffer, if not empty, is flushed first. Any other sentence goes
  to the buffer, which is flushed once it exceeds 200 code units. In particular a
  sentence of 30 code units of that shape, ending in a terminator, followed by a single
  sentence of 250 code units renders as one \<open>## \<close> heading line, a blank line, and the
  second sentence as one paragraph block.
\<close>

theorem markdown_headings:
  "(trim sentence \<noteq> [] \<longrightarrow>
      sentenceStep (markdown, paragraph) sentence =
        (if length (trim sentence) < 50 \<and>
            (\<exists>c ls ws d rest. trim sentence = c # ls @ ws @ d # rest \<and> is_upper c \<and>
               list_all is_lower ls \<and> list_all is_space ws \<and> is_upper d)
         then ((if paragraph \<noteq> [] then markdown @ trim paragraph @ [10, 10] else markdown)
                 @ js ''## '' @ trim sentence @ [10, 10], [])
         else if 200 < length (paragraph @ trim sentence @ [32])
         then (markdown @ trim (paragraph @ trim sentence @ [32]) @ [10, 10], [])
         else (markdown, paragraph @ trim sentence @ [32]))) \<and>
   (length h = 30 \<and> headingLike h \<and> is_terminator (last h) \<and> splitSentences h = [h] \<and>
    length b = 250 \<and> splitSentences b = [b] \<and> trim b = b \<longrightarrow>
      convertToMarkdown (h @ [32] @ b) None = js ''## '' @ h @ [10, 10] @ b)"
proof -
  have step: "sentenceStep (markdown, paragraph) sentence =
        (if length (trim sentence) < 50 \<and> headingLike (trim sentence)
         then ((if paragraph \<noteq> [] then markdown @ trim paragraph @ [10, 10] else markdown)
                 @ js ''## '' @ trim sentence @ [10, 10], [])
         else if 200 < length (paragraph @ trim sentence @ [32])
         then (markdown @ trim (paragraph @ trim sentence @ [32]) @ [10, 10], [])
         else (markdown, paragraph @ trim sentence @ [32]))"
    if "trim sentence \<noteq> []"
    using that by (simp add: sentenceStep_def flushParagraph_def Let_def)
  show ?thesis
    using step scenario_markdown [of h b] unfolding headingLike_iff [of "trim sentence"] by blast
qed

lemmas markdown_evaluation =
  convertToMarkdown_def markdownHeader_def splitSentences_def sentenceStep_def flushParagraph_def
  headingLike_def titleLikeSpec_def is_terminator_def is_upper_def is_lower_def is_space_def
  trim_def trimStart_def trimEnd_def

theorem markdown_headings_witness:
  "sentenceStep (js ''Summary text.'' @ [10, 10], js ''Open items remain. '') (js '' Annual Report '')
     = (js ''Summary text.'' @ [10, 10] @ js ''Open items remain.'' @ [10, 10] @
        js ''## Annual Report'' @ [10, 10], []) \<and>
   convertToMarkdown
     (js ''Quarterly Report For The Year.'' @ [32] @
      js ''the committee reviewed every submitted proposal in detail and agreed that the remaining budget should be spent on new equipment for the laboratory while the older machines are repaired and kept in reserve for the training of incoming staff members a.'')
     (None :: unit DocumentMetadata option)
   = js ''## Quarterly Report For The Year.'' @ [10, 10] @
     js ''the committee reviewed every submitted proposal in detail and agreed that the remaining budget should be spent on new equipment for the laboratory while the older machines are repaired and kept in reserve for the training of incoming staff members a.''"
proof -
  let ?s = "js '' Annual Report ''"
  let ?md = "js ''Summary text.'' @ [10, 10]"
  let ?par = "js ''Open items remain. ''"
  have t: "trim ?s = js ''Annual Report''"
    by (simp add: markdown_evaluation)
  have n: "trim ?s \<noteq> []"
    unfolding t by simp
  have c: "length (trim ?s) < 50 \<and>
           (\<exists>c ls ws d rest. trim ?s = c # ls @ ws @ d # rest \<and> is_upper c \<and>
              list_all is_lower ls \<and> list_all is_space ws \<and> is_upper d)"
    unfolding headingLike_iff [symmetric] t by (simp add: markdown_evaluation)
  have "sentenceStep (?md, ?par) ?s =
          ((if ?par \<noteq> [] then ?md @ trim ?par @ [10, 10] else ?md) @ js ''## '' @ trim ?s @ [10, 10], [])"
    using markdown_headings [of ?s ?md ?par, THEN conjunct1] n c by (simp only: if_True simp_thms)
  also have "\<dots> = (js ''Summary text.'' @ [10, 10] @ js ''Open items remain.'' @ [10, 10] @
        js ''## Annual Report'' @ [10, 10], [])"
    unfolding t by (simp add: markdown_evaluation)
  finally have step: "sentenceStep (?md, ?par) ?s
     = (js ''Summary text.'' @ [10, 10] @ js ''Open items remain.'' @ [10, 10] @
        js ''## Annual Report'' @ [10, 10], [])" .
  let ?h = "js ''Quarterly Report For The Year.''"
  let ?b = "js ''the committee reviewed every submitted proposal in detail and agreed that the remaining budget should be spent on new equipment for the laboratory while the older machines are repaired and kept in reserve for the training of incoming staff members a.''"
  have h: "length ?h = 30 \<and> headingLike ?h \<and> is_terminator (last ?h) \<and> splitSentences ?h = [?h]"
    by (simp add: markdown_evaluation)
  have b1: "length ?b = 250"
    by simp
  have b2: "splitSentences ?b = [?b]"
    by (simp add: markdown_evaluation)
  have b3: "trim ?b = ?b"
    by (simp add: markdown_evaluation)
  have "convertToMarkdown (?h @ [32] @ ?b) (None :: unit DocumentMetadata option)
          = js ''## '' @ ?h @ [10, 10] @ ?b"
    using markdown_headings [of _ _ _ ?h ?b] h b1 b2 b3 by blast
  then have "convertToMarkdown (?h @ [32] @ ?b) (None :: unit DocumentMetadata option)
          = js ''## Quarterly Report For The Year.'' @ [10, 10] @ ?b"
    by simp
  with step show ?thesis
    by (simp only:)
qed

theorem capitalised_sentence_counterexample:
  "length (js ''Hello big World.'') < 50 \<and>
   titleLikeSpec (js ''Hello big World.'') \<and>
   splitSentences (js ''Hello big World.'') = [js ''Hello big World.''] \<and>
   convertToMarkdown (js ''Hello big World.'') (None :: unit DocumentMetadata option)
     = js ''Hello big World.''"
  by (simp add: markdown_evaluation)

end
